theory Spec2Isabelle
  imports Main
begin

section \<open>JavaScript values\<close>

text \<open>
  The viewer is TypeScript over untyped (\<open>any\<close>) data, so the primitive values that
  flow through it are modelled by one datatype. Numbers are the integer-valued doubles
  in the range where integers are exact and printed in full (a raw cell value such as 0 or
  42); truthiness and \<open>String(...)\<close> follow ECMAScript on these values.
\<close>

datatype jsval = JUndefined | JNull | JBool bool | JNum int | JStr string

fun truthy :: "jsval \<Rightarrow> bool" where
  "truthy JUndefined = False"
| "truthy JNull = False"
| "truthy (JBool b) = b"
| "truthy (JNum n) = (n \<noteq> 0)"
| "truthy (JStr s) = (s \<noteq> [])"

text \<open>\<open>a || b\<close> on values.\<close>

definition js_or :: "jsval \<Rightarrow> jsval \<Rightarrow> jsval" where
  "js_or a b = (if truthy a then a else b)"

text \<open>Decimal digits of a natural number, most significant first.\<close>

function digits :: "nat \<Rightarrow> string" where
  "digits n = (if n < 10 then [char_of (48 + n)] else digits (n div 10) @ [char_of (48 + n mod 10)])"
  by pat_completeness auto
termination
  by (relation "measure id") auto

text \<open>\<open>String(x)\<close>.\<close>

fun String_js :: "jsval \<Rightarrow> string" where
  "String_js JUndefined = ''undefined''"
| "String_js JNull = ''null''"
| "String_js (JBool b) = (if b then ''true'' else ''false'')"
| "String_js (JNum n) = (if n < 0 then CHR ''-'' # digits (nat (- n)) else digits (nat n))"
| "String_js (JStr s) = s"

section \<open>Column labels\<close>

text \<open>
  \<open>getColumnLabel\<close> of SimpleExcelViewer.tsx: the loop prepends the letter of
  \<open>num % 26\<close> and continues with \<open>Math.floor(num / 26) - 1\<close> while \<open>num >= 0\<close>.
  The index is an integer; on a negative index the loop body never runs.
\<close>

function getColumnLabel_loop :: "int \<Rightarrow> string \<Rightarrow> string" where
  "getColumnLabel_loop num label =
     (if num \<ge> 0
      then getColumnLabel_loop (num div 26 - 1) (char_of (65 + num mod 26) # label)
      else label)"
  by pat_completeness auto
termination
  by (relation "measure (\<lambda>(num, label). nat (num + 1))") auto

definition getColumnLabel :: "int \<Rightarrow> string" where
  "getColumnLabel index = getColumnLabel_loop index []"

text \<open>
  The reading of a letter string as a bijective base-26 numeral (A = 1, ..., Z = 26), the
  way spreadsheets number their columns from 1.
\<close>

definition letter_value :: "char \<Rightarrow> int" where
  "letter_value c = of_char c - 64"

definition label_value :: "string \<Rightarrow> int" where
  "label_value s = foldl (\<lambda>a c. a * 26 + letter_value c) 0 s"

definition upper_AZ :: "char \<Rightarrow> bool" where
  "upper_AZ c \<longleftrightarrow> (of_char (CHR ''A'') :: int) \<le> of_char c \<and> (of_char c :: int) \<le> of_char (CHR ''Z'')"

section \<open>The parser's output\<close>

text \<open>
  The spreadsheet library is an opaque collaborator; only the shape of what it returns is
  modelled. A cell object has the optional fields \<open>w\<close> (formatted text), \<open>v\<close> (raw value),
  \<open>f\<close> (formula), \<open>t\<close> (type) and \<open>s\<close> (style); they are named \<open>cell_w\<close> ... \<open>cell_s\<close>
  here. In these records \<open>None\<close> is a property that is absent (\<open>undefined\<close>).
\<close>

record cell_color =
  rgb :: "string option"
  indexed :: "int option"

record cell_fill =
  bgColor :: "cell_color option"

record cell_font =
  font_color :: "cell_color option"
  bold :: jsval
  italic :: jsval
  sz :: "int option"
  font_name :: "string option"

record style_alignment =
  a_horizontal :: "string option"
  a_vertical :: "string option"

type_synonym border_object = "(string \<times> string) list"

record cell_style =
  fill :: "cell_fill option"
  font :: "cell_font option"
  s_alignment :: "style_alignment option"
  s_border :: "border_object option"

record cell_object =
  cell_w :: "string option"
  cell_v :: jsval
  cell_f :: "string option"
  cell_t :: "string option"
  cell_s :: "cell_style option"

record worksheet =
  ws_ref :: "string option"
  ws_cells :: "string \<rightharpoonup> cell_object"

record workbook =
  SheetNames :: "string list"
  Sheets :: "string \<rightharpoonup> worksheet"

record range =
  s_r :: int
  s_c :: int
  e_r :: int
  e_c :: int

text \<open>
  What can be thrown: an error with a message, raised by the platform or the library; the
  TypeError of reading a property (named here) of \<open>undefined\<close>; and the RangeError of a
  call that spreads more arguments than the engine accepts.
\<close>

datatype js_exn = Exn string | TypeError string | RangeError

text \<open>
  The library and platform functions the viewer calls, and what the engine decides:
  \<open>file.arrayBuffer()\<close>, \<open>XLSX.read\<close>, \<open>XLSX.utils.decode_range\<close>,
  \<open>XLSX.utils.encode_cell\<close> (row, then column), \<open>XLSX.utils.sheet_to_json\<close> and
  \<open>JSON.stringify\<close> on a style object; the largest number of arguments a call can
  spread, and the message texts of the engine's own errors. Reading, parsing and
  \<open>sheet_to_json\<close> may throw. \<open>sheet_to_json\<close> (called with \<open>raw: false\<close>) formats the
  cells and writes the formatted text \<open>w\<close> into cell objects of the worksheet: besides the
  rows it returns, the model has it return these texts by cell address.
\<close>

record ('f, 'b) xlsx_env =
  arrayBuffer :: "'f \<Rightarrow> js_exn + 'b"
  XLSX_read :: "'b \<Rightarrow> js_exn + workbook"
  decode_range :: "string \<Rightarrow> range"
  encode_cell :: "nat \<Rightarrow> nat \<Rightarrow> string"
  sheet_to_json :: "worksheet \<Rightarrow> js_exn + (jsval list list \<times> (string \<rightharpoonup> string))"
  JSON_stringify :: "cell_style \<Rightarrow> string"
  max_arguments :: nat
  type_error_message :: "string \<Rightarrow> string"
  range_error_message :: string

text \<open>\<open>(err as Error).message\<close>\<close>

definition exn_message :: "('f, 'b) xlsx_env \<Rightarrow> js_exn \<Rightarrow> string" where
  "exn_message env err =
     (case err of
        Exn m \<Rightarrow> m
      | TypeError property \<Rightarrow> type_error_message env property
      | RangeError \<Rightarrow> range_error_message env)"

text \<open>The worksheet after \<open>sheet_to_json\<close> has written these formatted texts into its cells.\<close>

definition written :: "(string \<rightharpoonup> string) \<Rightarrow> worksheet \<Rightarrow> worksheet" where
  "written texts ws =
     ws\<lparr>ws_cells := (\<lambda>address.
           case ws_cells ws address of
             None \<Rightarrow> None
           | Some cell \<Rightarrow>
               (case texts address of
                  None \<Rightarrow> Some cell
                | Some x \<Rightarrow> Some (cell\<lparr>cell_w := Some x\<rparr>)))\<rparr>"

section \<open>Cell-presentation records and sheets\<close>

text \<open>
  In a cell-presentation record \<open>None\<close> is \<open>null\<close>, except for \<open>debugInfo\<close>, which the
  default records do not have at all. \<open>originalCell\<close> is a reference to the parser's cell
  object, not a copy of it: the object is the one at a cell address of the worksheet of a
  sheet name, and what it holds may change after the record is built.
\<close>

datatype cell_ref = CellRef string string

record alignment_rec =
  horizontal :: string
  vertical :: string

record cell_record =
  "value" :: jsval
  formula :: "string option"
  type :: string
  style :: "cell_style option"
  backgroundColor :: "string option"
  textColor :: "string option"
  isBold :: jsval
  isItalic :: jsval
  fontSize :: "string option"
  fontFamily :: "string option"
  alignment :: "alignment_rec option"
  border :: "border_object option"
  originalCell :: "cell_ref option"
  debugInfo :: "string option"

text \<open>
  A JavaScript array may have holes: an element is \<open>None\<close> where the array has no entry
  (reading it gives \<open>undefined\<close>). Reading beyond the length gives \<open>undefined\<close> too, and
  assigning at or beyond the length extends the array, leaving holes in between.
\<close>

type_synonym 'a js_array = "'a option list"

definition js_get :: "'a js_array \<Rightarrow> nat \<Rightarrow> 'a option" where
  "js_get xs i = (if i < length xs then xs ! i else None)"

definition js_set :: "'a js_array \<Rightarrow> nat \<Rightarrow> 'a \<Rightarrow> 'a js_array" where
  "js_set xs i x =
     (if i < length xs then xs[i := Some x]
      else xs @ replicate (i - length xs) None @ [Some x])"

record sheet =
  name :: string
  data :: "cell_record js_array js_array"
  rawData :: "jsval list list"

record viewer_state =
  sheets :: "sheet list"
  activeSheetIndex :: nat
  isLoading :: bool
  error :: "string option"
  showFormulas :: bool

definition initial_state :: viewer_state where
  "initial_state =
     \<lparr>sheets = [], activeSheetIndex = 0, isLoading = False, error = None, showFormulas = False\<rparr>"

section \<open>Formatting helpers\<close>

definition indexedColors :: "int \<rightharpoonup> string" where
  "indexedColors = map_of
     [(64, ''#000000''), (9, ''#ffffff''), (10, ''#ff0000''), (11, ''#00ff00''),
      (12, ''#0000ff''), (13, ''#ffff00''), (14, ''#ff00ff''), (15, ''#00ffff''),
      (43, ''#92d050''), (44, ''#00b0f0''), (45, ''#0070c0''), (46, ''#002060'')]"

text \<open>\<open>if (color.rgb) return `#${color.rgb.slice(2)}`\<close>, or nothing.\<close>

definition rgb_hex :: "cell_color \<Rightarrow> string option" where
  "rgb_hex col =
     (case rgb col of
        Some x \<Rightarrow> if x \<noteq> [] then Some (CHR ''#'' # drop 2 x) else None
      | None \<Rightarrow> None)"

definition getCellBackgroundColor :: "cell_object \<Rightarrow> string option" where
  "getCellBackgroundColor cell =
     (case cell_s cell of None \<Rightarrow> None | Some st \<Rightarrow>
      case fill st of None \<Rightarrow> None | Some fl \<Rightarrow>
      case bgColor fl of None \<Rightarrow> None | Some col \<Rightarrow>
        (case rgb_hex col of
           Some h \<Rightarrow> Some h
         | None \<Rightarrow>
             (case indexed col of
                Some i \<Rightarrow> if i \<noteq> 0 then indexedColors i else None
              | None \<Rightarrow> None)))"

definition getCellTextColor :: "cell_object \<Rightarrow> string option" where
  "getCellTextColor cell =
     (case cell_s cell of None \<Rightarrow> None | Some st \<Rightarrow>
      case font st of None \<Rightarrow> None | Some fnt \<Rightarrow>
      case font_color fnt of None \<Rightarrow> None | Some col \<Rightarrow> rgb_hex col)"

text \<open>\<open>cell.s && cell.s.font && cell.s.font.bold\<close>: \<open>undefined\<close> unless both objects exist.\<close>

definition isCellBold :: "cell_object \<Rightarrow> jsval" where
  "isCellBold cell =
     (case cell_s cell of None \<Rightarrow> JUndefined | Some st \<Rightarrow>
      case font st of None \<Rightarrow> JUndefined | Some fnt \<Rightarrow> bold fnt)"

definition isCellItalic :: "cell_object \<Rightarrow> jsval" where
  "isCellItalic cell =
     (case cell_s cell of None \<Rightarrow> JUndefined | Some st \<Rightarrow>
      case font st of None \<Rightarrow> JUndefined | Some fnt \<Rightarrow> italic fnt)"

definition getCellFontSize :: "cell_object \<Rightarrow> string option" where
  "getCellFontSize cell =
     (case cell_s cell of None \<Rightarrow> None | Some st \<Rightarrow>
      case font st of None \<Rightarrow> None | Some fnt \<Rightarrow>
      case sz fnt of None \<Rightarrow> None
      | Some n \<Rightarrow> if n \<noteq> 0 then Some (String_js (JNum n) @ ''px'') else None)"

definition getCellFontFamily :: "cell_object \<Rightarrow> string option" where
  "getCellFontFamily cell =
     (case cell_s cell of None \<Rightarrow> None | Some st \<Rightarrow>
      case font st of None \<Rightarrow> None | Some fnt \<Rightarrow>
      case font_name fnt of None \<Rightarrow> None
      | Some x \<Rightarrow> if x \<noteq> [] then Some x else None)"

text \<open>\<open>x || d\<close> for an optional string.\<close>

definition str_or :: "string option \<Rightarrow> string \<Rightarrow> string" where
  "str_or x d = (case x of Some y \<Rightarrow> if y \<noteq> [] then y else d | None \<Rightarrow> d)"

definition getCellAlignment :: "cell_object \<Rightarrow> alignment_rec option" where
  "getCellAlignment cell =
     (case cell_s cell of None \<Rightarrow> None | Some st \<Rightarrow>
      case s_alignment st of None \<Rightarrow> None
      | Some al \<Rightarrow> Some \<lparr>horizontal = str_or (a_horizontal al) ''left'',
                        vertical = str_or (a_vertical al) ''middle''\<rparr>)"

definition getCellBorder :: "cell_object \<Rightarrow> border_object option" where
  "getCellBorder cell =
     (case cell_s cell of None \<Rightarrow> None | Some st \<Rightarrow> s_border st)"

section \<open>Loading a workbook\<close>

text \<open>A string or \<open>null\<close> inside a template literal.\<close>

definition tmpl :: "string option \<Rightarrow> string" where
  "tmpl x = (case x of None \<Rightarrow> ''null'' | Some y \<Rightarrow> y)"

text \<open>
  The record built for a position whose cell object exists (the \<open>if (cell)\<close> branch of
  \<open>loadExcelFile\<close>), from the reference to the object and what the object holds. The
  \<open>console.log\<close> of the first cells has no effect on the state and is left out.
\<close>

definition extractCell :: "('f, 'b) xlsx_env \<Rightarrow> cell_ref \<Rightarrow> cell_object \<Rightarrow> cell_record" where
  "extractCell env ref cell =
     (let backgroundColor' = getCellBackgroundColor cell;
          textColor' = getCellTextColor cell;
          isBold' = isCellBold cell
      in \<lparr>value = js_or (js_or (case cell_w cell of None \<Rightarrow> JUndefined | Some x \<Rightarrow> JStr x)
                               (cell_v cell)) (JStr []),
          formula = (case cell_f cell of
                       Some x \<Rightarrow> if x \<noteq> [] then Some x else None
                     | None \<Rightarrow> None),
          type = str_or (cell_t cell) ''n'',
          style = cell_s cell,
          backgroundColor = backgroundColor',
          textColor = textColor',
          isBold = isBold',
          isItalic = isCellItalic cell,
          fontSize = getCellFontSize cell,
          fontFamily = getCellFontFamily cell,
          alignment = getCellAlignment cell,
          border = getCellBorder cell,
          originalCell = Some ref,
          debugInfo = Some (''BG: '' @ tmpl backgroundColor' @ '', Text: '' @ tmpl textColor'
                            @ '', Bold: '' @ String_js isBold' @ '', Style: ''
                            @ (case cell_s cell of None \<Rightarrow> ''undefined''
                               | Some st \<Rightarrow> JSON_stringify env st))\<rparr>)"

text \<open>
  The default record, carrying a value: with the empty string it is the \<open>else\<close> branch
  of \<open>loadExcelFile\<close>, with the typed text the \<open>else\<close> branch of \<open>handleCellChange\<close>.
\<close>

definition defaultCell :: "jsval \<Rightarrow> cell_record" where
  "defaultCell x =
     \<lparr>value = x, formula = None, type = ''n'', style = None, backgroundColor = None,
      textColor = None, isBold = JBool False, isItalic = JBool False, fontSize = None,
      fontFamily = None, alignment = None, border = None, originalCell = None,
      debugInfo = None\<rparr>"

definition cellAt :: "('f, 'b) xlsx_env \<Rightarrow> string \<Rightarrow> worksheet \<Rightarrow> nat \<Rightarrow> nat \<Rightarrow> cell_record" where
  "cellAt env sheetName ws row col =
     (let cellAddress = encode_cell env row col
      in case ws_cells ws cellAddress of
           Some cell \<Rightarrow> extractCell env (CellRef sheetName cellAddress) cell
         | None \<Rightarrow> defaultCell (JStr []))"

text \<open>\<open>for (let col = 0; col < cols; col++) cellMatrix[row][col] = ...\<close>\<close>

function col_loop ::
  "('f, 'b) xlsx_env \<Rightarrow> string \<Rightarrow> worksheet \<Rightarrow> nat \<Rightarrow> int \<Rightarrow> nat \<Rightarrow> cell_record js_array
     \<Rightarrow> cell_record js_array"
where
  "col_loop env sheetName ws row cols col acc =
     (if int col < cols
      then col_loop env sheetName ws row cols (Suc col)
             (js_set acc col (cellAt env sheetName ws row col))
      else acc)"
  by pat_completeness auto
termination
  by (relation "measure (\<lambda>(env, sheetName, ws, row, cols, col, acc). nat (cols - int col))") auto

declare col_loop.simps [simp del]

text \<open>\<open>for (let row = 0; row < rows; row++) { cellMatrix[row] = []; ... }\<close>\<close>

function row_loop ::
  "('f, 'b) xlsx_env \<Rightarrow> string \<Rightarrow> worksheet \<Rightarrow> int \<Rightarrow> int \<Rightarrow> nat \<Rightarrow> cell_record js_array js_array
     \<Rightarrow> cell_record js_array js_array"
where
  "row_loop env sheetName ws rows cols row acc =
     (if int row < rows
      then row_loop env sheetName ws rows cols (Suc row)
             (js_set acc row (col_loop env sheetName ws row cols 0 []))
      else acc)"
  by pat_completeness auto
termination
  by (relation "measure (\<lambda>(env, sheetName, ws, rows, cols, row, acc). nat (rows - int row))") auto

declare row_loop.simps [simp del]

text \<open>\<open>XLSX.utils.decode_range(worksheet['!ref'] || 'A1:A1')\<close>\<close>

definition sheet_range :: "('f, 'b) xlsx_env \<Rightarrow> worksheet \<Rightarrow> range" where
  "sheet_range env ws = decode_range env (str_or (ws_ref ws) ''A1:A1'')"

definition cellMatrix ::
  "('f, 'b) xlsx_env \<Rightarrow> string \<Rightarrow> worksheet \<Rightarrow> cell_record js_array js_array" where
  "cellMatrix env sheetName ws =
     (let range = sheet_range env ws;
          rows = e_r range + 1;
          cols = e_c range + 1
      in row_loop env sheetName ws rows cols 0 [])"

text \<open>
  The callback of \<open>workbook.SheetNames.map\<close>, on the worksheets as they are when it is
  called. A name with no entry in \<open>workbook.Sheets\<close> makes \<open>worksheet\<close> undefined, and
  \<open>worksheet['!ref']\<close> throws. The matrix is built first; \<open>sheet_to_json\<close> is called when
  the returned object is built, may throw, and leaves its formatted texts in the cell
  objects of this worksheet. The result is the sheet entry and the worksheets afterwards.
\<close>

definition sheetData ::
  "('f, 'b) xlsx_env \<Rightarrow> (string \<rightharpoonup> worksheet) \<Rightarrow> string
     \<Rightarrow> js_exn + (sheet \<times> (string \<rightharpoonup> worksheet))" where
  "sheetData env worksheets sheetName =
     (case worksheets sheetName of
        None \<Rightarrow> Inl (TypeError ''!ref'')
      | Some ws \<Rightarrow>
          (let matrix = cellMatrix env sheetName ws
           in case sheet_to_json env ws of
                Inl err \<Rightarrow> Inl err
              | Inr (rows, texts) \<Rightarrow>
                  Inr (\<lparr>name = sheetName, data = matrix, rawData = rows\<rparr>,
                       worksheets(sheetName \<mapsto> written texts ws))))"

text \<open>
  \<open>workbook.SheetNames.map\<close> with this callback: the names are taken in order, each call
  sees what the calls before it wrote, and the first exception ends the whole.
\<close>

fun map_sheetData ::
  "('f, 'b) xlsx_env \<Rightarrow> (string \<rightharpoonup> worksheet) \<Rightarrow> string list \<Rightarrow> js_exn + sheet list" where
  "map_sheetData env worksheets [] = Inr []"
| "map_sheetData env worksheets (sheetName # sheetNames) =
     (case sheetData env worksheets sheetName of
        Inl err \<Rightarrow> Inl err
      | Inr (sh, worksheets') \<Rightarrow>
          (case map_sheetData env worksheets' sheetNames of
             Inl err \<Rightarrow> Inl err
           | Inr shs \<Rightarrow> Inr (sh # shs)))"

text \<open>The body of the \<open>try\<close> block up to the two state updates: the new sheets, or the exception.\<close>

definition try_block :: "('f, 'b) xlsx_env \<Rightarrow> 'f \<Rightarrow> js_exn + sheet list" where
  "try_block env file =
     (case arrayBuffer env file of
        Inl e \<Rightarrow> Inl e
      | Inr buf \<Rightarrow>
          (case XLSX_read env buf of
             Inl e \<Rightarrow> Inl e
           | Inr wb \<Rightarrow> map_sheetData env (Sheets wb) (SheetNames wb)))"

text \<open>
  \<open>loadExcelFile\<close> is asynchronous: the two updates before the \<open>await\<close> are one step, and
  everything after it (\<open>try\<close>, \<open>catch\<close>, \<open>finally\<close>) a second one.
\<close>

definition loadExcelFile_begin :: "viewer_state \<Rightarrow> viewer_state" where
  "loadExcelFile_begin st = st\<lparr>isLoading := True, error := None\<rparr>"

definition loadExcelFile_end :: "('f, 'b) xlsx_env \<Rightarrow> 'f \<Rightarrow> viewer_state \<Rightarrow> viewer_state" where
  "loadExcelFile_end env file st =
     (case try_block env file of
        Inr sheetsData \<Rightarrow> st\<lparr>sheets := sheetsData, activeSheetIndex := 0, isLoading := False\<rparr>
      | Inl err \<Rightarrow> st\<lparr>error := Some (''Error loading Excel file: '' @ exn_message env err),
                       isLoading := False\<rparr>)"

definition loadExcelFile :: "('f, 'b) xlsx_env \<Rightarrow> 'f \<Rightarrow> viewer_state \<Rightarrow> viewer_state" where
  "loadExcelFile env file st = loadExcelFile_end env file (loadExcelFile_begin st)"

section \<open>Editing a cell\<close>

text \<open>
  \<open>handleCellChange\<close>. Reading \<open>.data\<close> of a sheet that does not exist throws. A missing
  row starts as \<open>[]\<close>; the row is then assigned at \<open>colIndex\<close> in place, which the model
  writes back into the matrix. The indices come from the rendered grid and are naturals.
\<close>

definition handleCellChange :: "nat \<Rightarrow> nat \<Rightarrow> string \<Rightarrow> viewer_state \<Rightarrow> js_exn + viewer_state" where
  "handleCellChange rowIndex colIndex v st =
     (if activeSheetIndex st < length (sheets st)
      then
        (let sh = sheets st ! activeSheetIndex st;
             row = (case js_get (data sh) rowIndex of None \<Rightarrow> [] | Some r \<Rightarrow> r);
             newCell = (case js_get row colIndex of
                          Some existingCell \<Rightarrow> existingCell\<lparr>value := JStr v\<rparr>
                        | None \<Rightarrow> defaultCell (JStr v));
             data' = js_set (data sh) rowIndex (js_set row colIndex newCell)
         in Inr (st\<lparr>sheets := (sheets st)[activeSheetIndex st := sh\<lparr>data := data'\<rparr>]\<rparr>))
      else Inl (TypeError ''data''))"

section \<open>Rendering\<close>

definition maxRows :: "sheet \<Rightarrow> nat" where
  "maxRows sh = max (length (data sh)) 20"

text \<open>
  \<open>Math.max\<close> over a spread array, starting from a known number: a hole in the array is
  spread as \<open>undefined\<close> and makes the result \<open>NaN\<close>, which is \<open>None\<close> here.
\<close>

fun Math_max :: "nat \<Rightarrow> nat option list \<Rightarrow> nat option" where
  "Math_max m [] = Some m"
| "Math_max m (None # xs) = None"
| "Math_max m (Some x # xs) = Math_max (max m x) xs"

text \<open>
  \<open>Math.max(...activeSheet.data.map(row => row.length), 10)\<close>; \<open>map\<close> keeps the holes of
  \<open>data\<close>. The call spreads one argument for every row and one more, and throws when that
  is more than the engine accepts.
\<close>

definition maxCols :: "('f, 'b) xlsx_env \<Rightarrow> sheet \<Rightarrow> js_exn + nat option" where
  "maxCols env sh =
     (if max_arguments env < Suc (length (data sh)) then Inl RangeError
      else Inr (Math_max 10 (map (map_option length) (data sh))))"

text \<open>\<open>Array.from({ length: n }, ...)\<close> has no elements when \<open>n\<close> is \<open>NaN\<close>.\<close>

definition array_from_length :: "nat option \<Rightarrow> nat list" where
  "array_from_length n = (case n of None \<Rightarrow> [] | Some k \<Rightarrow> [0..<k])"

definition getCellDisplayValue :: "bool \<Rightarrow> cell_record option \<Rightarrow> string" where
  "getCellDisplayValue showFormulas' cell =
     (case cell of
        None \<Rightarrow> []
      | Some c \<Rightarrow>
          (case formula c of
             Some x \<Rightarrow> if showFormulas' \<and> x \<noteq> [] then CHR ''='' # x
                       else String_js (js_or (value c) (JStr []))
           | None \<Rightarrow> String_js (js_or (value c) (JStr []))))"

text \<open>\<open>activeSheet.data[rowIndex] && activeSheet.data[rowIndex][colIndex]\<close>\<close>

definition grid_cell :: "sheet \<Rightarrow> nat \<Rightarrow> nat \<Rightarrow> cell_record option" where
  "grid_cell sh rowIndex colIndex =
     (case js_get (data sh) rowIndex of None \<Rightarrow> None | Some row \<Rightarrow> js_get row colIndex)"

text \<open>
  What the component returns: the loading notice, the error message, nothing, or the grid
  with its sheet tabs (only when there is more than one sheet), column headers and one
  text input per rendered position. With the active index out of range, reading
  \<open>activeSheet.data\<close> throws; with more rows than the engine can spread, \<open>Math.max\<close>
  does.
\<close>

record grid =
  tabs :: "nat list"
  headers :: "string list"
  inputs :: "string list list"

datatype view = LoadingView | ErrorView string | NullView | GridView grid

definition render :: "('f, 'b) xlsx_env \<Rightarrow> viewer_state \<Rightarrow> js_exn + view" where
  "render env st =
     (if isLoading st then Inr LoadingView
      else if error st \<noteq> None \<and> error st \<noteq> Some [] then Inr (ErrorView (tmpl (error st)))
      else if length (sheets st) = 0 then Inr NullView
      else if activeSheetIndex st < length (sheets st)
      then
        (let activeSheet = sheets st ! activeSheetIndex st;
             rowIndices = array_from_length (Some (maxRows activeSheet))
         in case maxCols env activeSheet of
              Inl err \<Rightarrow> Inl err
            | Inr n \<Rightarrow>
                (let colIndices = array_from_length n
                 in Inr (GridView
                      \<lparr>tabs = (if length (sheets st) > 1 then [0..<length (sheets st)] else []),
                       headers = map (\<lambda>colIndex. getColumnLabel (int colIndex)) colIndices,
                       inputs = map (\<lambda>rowIndex. map (\<lambda>colIndex.
                                  getCellDisplayValue (showFormulas st)
                                    (grid_cell activeSheet rowIndex colIndex)) colIndices)
                                  rowIndices\<rparr>)))
      else Inl (TypeError ''data''))"

section \<open>The component over time\<close>

text \<open>
  One step of the component: a load begins or ends (the first effect runs whenever the
  \<open>file\<close> prop changes, and a load ends whenever its promise settles), or the user acts on
  what is rendered: clicks one of the rendered tabs, clicks the formula toggle, or types
  into one of the rendered inputs.
\<close>

inductive step :: "('f, 'b) xlsx_env \<Rightarrow> viewer_state \<Rightarrow> viewer_state \<Rightarrow> bool"
  for env :: "('f, 'b) xlsx_env"
where
  load_begin: "step env st (loadExcelFile_begin st)"
| load_end: "step env st (loadExcelFile_end env file st)"
| tab_click:
    "render env st = Inr (GridView g) \<Longrightarrow> index \<in> set (tabs g)
     \<Longrightarrow> step env st (st\<lparr>activeSheetIndex := index\<rparr>)"
| toggle:
    "render env st = Inr (GridView g) \<Longrightarrow> step env st (st\<lparr>showFormulas := \<not> showFormulas st\<rparr>)"
| cell_input:
    "render env st = Inr (GridView g) \<Longrightarrow> rowIndex < length (inputs g)
     \<Longrightarrow> colIndex < length (headers g)
     \<Longrightarrow> handleCellChange rowIndex colIndex v st = Inr st'
     \<Longrightarrow> step env st st'"

inductive reachable :: "('f, 'b) xlsx_env \<Rightarrow> viewer_state \<Rightarrow> bool"
  for env :: "('f, 'b) xlsx_env"
where
  reachable_initial: "reachable env initial_state"
| reachable_step: "reachable env st \<Longrightarrow> step env st st' \<Longrightarrow> reachable env st'"

section \<open>The alternative viewer's conversion\<close>

text \<open>
  The records \<open>convertToLuckysheetData\<close> of ExcelViewer.tsx pushes: \<open>{r, c, v: {v, ct: {fa, t},
  m, bg, bl, it, ff, fs, fc, ht, vt}}\<close>. The field names are prefixed here.
\<close>

record ls_celltype =
  ct_fa :: string
  ct_t :: string

record ls_value =
  lv_v :: jsval
  lv_ct :: ls_celltype
  lv_m :: string
  lv_bg :: "string option"
  lv_bl :: int
  lv_it :: int
  lv_ff :: string
  lv_fs :: int
  lv_fc :: string
  lv_ht :: int
  lv_vt :: int

record ls_cell =
  ls_r :: nat
  ls_c :: nat
  ls_v :: ls_value

definition ls_record :: "nat \<Rightarrow> nat \<Rightarrow> jsval \<Rightarrow> ls_cell" where
  "ls_record rowIndex colIndex cell =
     \<lparr>ls_r = rowIndex, ls_c = colIndex,
      ls_v = \<lparr>lv_v = cell, lv_ct = \<lparr>ct_fa = ''General'', ct_t = ''g''\<rparr>, lv_m = String_js cell,
              lv_bg = None, lv_bl = 0, lv_it = 0, lv_ff = ''Arial'', lv_fs = 10,
              lv_fc = ''#000000'', lv_ht = 1, lv_vt = 1\<rparr>\<rparr>"

text \<open>
  The two nested \<open>forEach\<close> loops with their running index and the \<open>result\<close> array they
  push to. A hole of a row is skipped by \<open>forEach\<close> and an \<open>undefined\<close> entry is skipped by
  the test, so both are \<open>JUndefined\<close> here.
\<close>

fun row_forEach :: "nat \<Rightarrow> nat \<Rightarrow> jsval list \<Rightarrow> ls_cell list \<Rightarrow> ls_cell list" where
  "row_forEach rowIndex colIndex [] result = result"
| "row_forEach rowIndex colIndex (cell # row) result =
     row_forEach rowIndex (Suc colIndex) row
       (if cell \<noteq> JNull \<and> cell \<noteq> JUndefined \<and> cell \<noteq> JStr []
        then result @ [ls_record rowIndex colIndex cell] else result)"

fun data_forEach :: "nat \<Rightarrow> jsval list list \<Rightarrow> ls_cell list \<Rightarrow> ls_cell list" where
  "data_forEach rowIndex [] result = result"
| "data_forEach rowIndex (row # rows) result =
     data_forEach (Suc rowIndex) rows (row_forEach rowIndex 0 row result)"

definition convertToLuckysheetData :: "jsval list list \<Rightarrow> ls_cell list" where
  "convertToLuckysheetData data' = data_forEach 0 data' []"

text \<open>
  The conversion as the specification words it: the positions of the row array in row-major
  order, those whose cell is not null, undefined or the empty string, one record each, with
  the row index, the column index, the raw value, its string form as display text, and the
  fixed style fields of the widget's schema.
\<close>

definition row_major :: "jsval list list \<Rightarrow> (nat \<times> nat \<times> jsval) list" where
  "row_major data' =
     concat (map (\<lambda>(rowIndex, row). map (\<lambda>(colIndex, cell). (rowIndex, colIndex, cell))
                                        (enumerate 0 row)) (enumerate 0 data'))"

definition blank :: "jsval \<Rightarrow> bool" where
  "blank cell \<longleftrightarrow> cell = JNull \<or> cell = JUndefined \<or> cell = JStr []"

definition luckysheet_spec :: "jsval list list \<Rightarrow> ls_cell list" where
  "luckysheet_spec data' =
     map (\<lambda>(r, c, x).
            \<lparr>ls_r = r, ls_c = c,
             ls_v = \<lparr>lv_v = x, lv_ct = \<lparr>ct_fa = ''General'', ct_t = ''g''\<rparr>,
                     lv_m = String_js x, lv_bg = None, lv_bl = 0, lv_it = 0,
                     lv_ff = ''Arial'', lv_fs = 10, lv_fc = ''#000000'', lv_ht = 1,
                     lv_vt = 1\<rparr>\<rparr>)
       (filter (\<lambda>(r, c, x). \<not> blank x) (row_major data'))"

text \<open>The records one row contributes, from a starting column index.\<close>

definition row_records :: "nat \<Rightarrow> nat \<Rightarrow> jsval list \<Rightarrow> ls_cell list" where
  "row_records rowIndex colIndex row =
     map (\<lambda>(c, cell). ls_record rowIndex c cell)
       (filter (\<lambda>(c, cell). \<not> blank cell) (enumerate colIndex row))"

section \<open>An example environment\<close>

text \<open>
  A small concrete environment, to run the definitions on: files are named by strings, a
  buffer is the name again, and cell addresses are the column label followed by the
  1-based row number. The workbook of \<open>book.xlsx\<close> has a 2x2 sheet with a text cell A1, a
  formula cell B1 whose computed value is the number 0 and which has no formatted text, a
  bold number cell A2 with a yellow fill and nothing at B2, and a second sheet without
  cells or range. \<open>partial.xlsx\<close> parses to a workbook that names a sheet it does not
  contain, and \<open>badtype.xlsx\<close> to a workbook with a sheet that \<open>sheet_to_json\<close> refuses.
  \<open>sheet_to_json\<close> gives no rows here and writes the string form of the raw value into the
  cells that have no formatted text. The engine spreads at most 65535 arguments.
\<close>

definition demo_A1 :: cell_object where
  "demo_A1 = \<lparr>cell_w = Some ''Total'', cell_v = JStr ''Total'', cell_f = None,
              cell_t = Some ''s'', cell_s = None\<rparr>"

definition demo_B1 :: cell_object where
  "demo_B1 = \<lparr>cell_w = None, cell_v = JNum 0, cell_f = Some ''A2-A2'',
              cell_t = Some ''n'', cell_s = None\<rparr>"

definition demo_bold :: cell_style where
  "demo_bold = \<lparr>fill = Some \<lparr>bgColor = Some \<lparr>rgb = None, indexed = Some 13\<rparr>\<rparr>,
                font = Some \<lparr>font_color = Some \<lparr>rgb = Some ''FF112233'', indexed = None\<rparr>,
                             bold = JBool True, italic = JUndefined,
                             sz = Some 11, font_name = Some ''Calibri''\<rparr>,
                s_alignment = Some \<lparr>a_horizontal = Some ''right'', a_vertical = None\<rparr>,
                s_border = None\<rparr>"

definition demo_A2 :: cell_object where
  "demo_A2 = \<lparr>cell_w = Some ''7'', cell_v = JNum 7, cell_f = None,
              cell_t = Some ''n'', cell_s = Some demo_bold\<rparr>"

definition demo_Sheet1 :: worksheet where
  "demo_Sheet1 = \<lparr>ws_ref = Some ''A1:B2'',
                  ws_cells = [''A1'' \<mapsto> demo_A1, ''B1'' \<mapsto> demo_B1, ''A2'' \<mapsto> demo_A2]\<rparr>"

definition demo_Blank :: worksheet where
  "demo_Blank = \<lparr>ws_ref = None, ws_cells = Map.empty\<rparr>"

definition demo_workbook :: workbook where
  "demo_workbook = \<lparr>SheetNames = [''Sheet1'', ''Blank''],
                    Sheets = [''Sheet1'' \<mapsto> demo_Sheet1, ''Blank'' \<mapsto> demo_Blank]\<rparr>"

definition demo_partial :: workbook where
  "demo_partial = \<lparr>SheetNames = [''Chart1''], Sheets = Map.empty\<rparr>"

definition demo_Z :: worksheet where
  "demo_Z = \<lparr>ws_ref = Some ''A1:A1'',
             ws_cells = [''A1'' \<mapsto> \<lparr>cell_w = None, cell_v = JNum 1, cell_f = None,
                                    cell_t = Some ''z'', cell_s = None\<rparr>]\<rparr>"

definition demo_badtype :: workbook where
  "demo_badtype = \<lparr>SheetNames = [''Data''], Sheets = [''Data'' \<mapsto> demo_Z]\<rparr>"

definition demo_sheet_to_json :: "worksheet \<Rightarrow> js_exn + (jsval list list \<times> (string \<rightharpoonup> string))" where
  "demo_sheet_to_json ws =
     (if map_option cell_t (ws_cells ws ''A1'') = Some (Some ''z'')
      then Inl (Exn ''unrecognized type z'')
      else Inr ([], \<lambda>address.
             case ws_cells ws address of
               None \<Rightarrow> None
             | Some cell \<Rightarrow>
                 (case cell_w cell of
                    None \<Rightarrow> Some (String_js (cell_v cell))
                  | Some x \<Rightarrow> None)))"

definition demo_env :: "(string, string) xlsx_env" where
  "demo_env =
     \<lparr>arrayBuffer = (\<lambda>file. if file = ''unreadable.xlsx'' then Inl (Exn ''The file could not be read'')
                            else Inr file),
      XLSX_read = (\<lambda>buf. if buf = ''book.xlsx'' then Inr demo_workbook
                          else if buf = ''partial.xlsx'' then Inr demo_partial
                          else if buf = ''badtype.xlsx'' then Inr demo_badtype
                          else Inl (Exn ''Unsupported file'')),
      decode_range = (\<lambda>ref. if ref = ''A1:B2'' then \<lparr>s_r = 0, s_c = 0, e_r = 1, e_c = 1\<rparr>
                             else \<lparr>s_r = 0, s_c = 0, e_r = 0, e_c = 0\<rparr>),
      encode_cell = (\<lambda>row col. getColumnLabel (int col) @ String_js (JNum (int row + 1))),
      sheet_to_json = demo_sheet_to_json,
      JSON_stringify = (\<lambda>st. ''{}''),
      max_arguments = 65535,
      type_error_message = (\<lambda>property. ''Cannot read properties of undefined (reading ''
                                         @ [CHR 0x27] @ property @ [CHR 0x27] @ '')''),
      range_error_message = ''Maximum call stack size exceeded''\<rparr>"

definition demo_loaded :: viewer_state where
  "demo_loaded = loadExcelFile demo_env ''book.xlsx'' initial_state"

text \<open>The state after typing \<open>x\<close> into row 6, column D of the loaded example.\<close>

definition demo_edited :: viewer_state where
  "demo_edited =
     (case handleCellChange 5 3 ''x'' demo_loaded of Inr st \<Rightarrow> st | Inl err \<Rightarrow> demo_loaded)"

section \<open>What the specification says of a loaded sheet\<close>

text \<open>
  The reference range a worksheet declares, decoded; that of \<open>A1:A1\<close> when it declares
  none.
\<close>

definition declared_range :: "('f, 'b) xlsx_env \<Rightarrow> worksheet \<Rightarrow> range" where
  "declared_range env ws =
     (case ws_ref ws of
        None \<Rightarrow> decode_range env ''A1:A1''
      | Some ref \<Rightarrow> if ref = [] then decode_range env ''A1:A1'' else decode_range env ref)"

text \<open>The colours of the indexed palette that the viewer knows.\<close>

definition palette :: "int \<Rightarrow> string option" where
  "palette i =
     (if i = 64 then Some ''#000000'' else if i = 9 then Some ''#ffffff''
      else if i = 10 then Some ''#ff0000'' else if i = 11 then Some ''#00ff00''
      else if i = 12 then Some ''#0000ff'' else if i = 13 then Some ''#ffff00''
      else if i = 14 then Some ''#ff00ff'' else if i = 15 then Some ''#00ffff''
      else if i = 43 then Some ''#92d050'' else if i = 44 then Some ''#00b0f0''
      else if i = 45 then Some ''#0070c0'' else if i = 46 then Some ''#002060''
      else None)"

text \<open>
  A record whose fields are direct lookups of a cell object. The value is the formatted
  text, else the raw value, else the empty string; the formula and the type are the
  object's (null and \<open>n\<close> when it has none); the style is the object's style. The style
  attributes are read along the paths of the style object: the background colour from
  \<open>s.fill.bgColor\<close> (its RGB text without the two alpha digits, after a \<open>#\<close>, else its
  palette colour), the text colour from \<open>s.font.color\<close> in the same way (RGB only), bold
  and italic from \<open>s.font.bold\<close> and \<open>s.font.italic\<close> as they are, the font size from
  \<open>s.font.sz\<close> with the unit \<open>px\<close>, the font family from \<open>s.font.name\<close>, the alignment from
  \<open>s.alignment\<close> (left and middle where it names none) and the border from \<open>s.border\<close>. A
  path that does not exist gives null (undefined for bold and italic).
\<close>

definition looked_up :: "cell_object \<Rightarrow> cell_record \<Rightarrow> bool" where
  "looked_up co cell \<longleftrightarrow>
     (let the_font = Option.bind (cell_s co) font;
          background = Option.bind (Option.bind (cell_s co) fill) bgColor;
          foreground = Option.bind the_font font_color;
          aligned = Option.bind (cell_s co) s_alignment
      in
       value cell =
         (case cell_w co of
            Some x \<Rightarrow> if x \<noteq> [] then JStr x else if truthy (cell_v co) then cell_v co else JStr []
          | None \<Rightarrow> if truthy (cell_v co) then cell_v co else JStr []) \<and>
       formula cell = (case cell_f co of Some x \<Rightarrow> if x \<noteq> [] then Some x else None | None \<Rightarrow> None) \<and>
       type cell = (case cell_t co of Some x \<Rightarrow> if x \<noteq> [] then x else ''n'' | None \<Rightarrow> ''n'') \<and>
       style cell = cell_s co \<and>
       backgroundColor cell =
         (case background of
            None \<Rightarrow> None
          | Some col \<Rightarrow>
              if rgb col \<noteq> None \<and> rgb col \<noteq> Some []
              then map_option (\<lambda>x. CHR ''#'' # drop 2 x) (rgb col)
              else if indexed col \<noteq> None \<and> indexed col \<noteq> Some 0
              then Option.bind (indexed col) palette
              else None) \<and>
       textColor cell =
         (case foreground of
            None \<Rightarrow> None
          | Some col \<Rightarrow>
              if rgb col \<noteq> None \<and> rgb col \<noteq> Some []
              then map_option (\<lambda>x. CHR ''#'' # drop 2 x) (rgb col)
              else None) \<and>
       isBold cell = (case the_font of None \<Rightarrow> JUndefined | Some fnt \<Rightarrow> bold fnt) \<and>
       isItalic cell = (case the_font of None \<Rightarrow> JUndefined | Some fnt \<Rightarrow> italic fnt) \<and>
       fontSize cell =
         (case Option.bind the_font sz of
            None \<Rightarrow> None
          | Some n \<Rightarrow> if n = 0 then None else Some (String_js (JNum n) @ ''px'')) \<and>
       fontFamily cell =
         (case Option.bind the_font font_name of
            None \<Rightarrow> None
          | Some x \<Rightarrow> if x = [] then None else Some x) \<and>
       alignment cell =
         map_option
           (\<lambda>al. \<lparr>horizontal = (case a_horizontal al of
                                   None \<Rightarrow> ''left''
                                 | Some h \<Rightarrow> if h = [] then ''left'' else h),
                   vertical = (case a_vertical al of
                                 None \<Rightarrow> ''middle''
                               | Some u \<Rightarrow> if u = [] then ''middle'' else u)\<rparr>)
           aligned \<and>
       border cell = Option.bind (cell_s co) s_border)"

text \<open>
  The default record: empty-string value, null formula, type \<open>n\<close>, no style attributes.
\<close>

definition unstyled_default :: "cell_record \<Rightarrow> bool" where
  "unstyled_default cell \<longleftrightarrow>
     value cell = JStr [] \<and> formula cell = None \<and> type cell = ''n'' \<and> style cell = None \<and>
     backgroundColor cell = None \<and> textColor cell = None \<and> isBold cell = JBool False \<and>
     isItalic cell = JBool False \<and> fontSize cell = None \<and> fontFamily cell = None \<and>
     alignment cell = None \<and> border cell = None \<and> originalCell cell = None"

text \<open>
  A well-formed workbook: its sheet names are distinct, every sheet name has its worksheet,
  the end of the worksheet's declared range is a position, with row and column at least 0,
  and the library turns the worksheet into rows without an exception.
\<close>

definition well_formed :: "('f, 'b) xlsx_env \<Rightarrow> workbook \<Rightarrow> bool" where
  "well_formed env wb \<longleftrightarrow>
     distinct (SheetNames wb) \<and>
     list_all (\<lambda>sheetName.
        case Sheets wb sheetName of
          None \<Rightarrow> False
        | Some ws \<Rightarrow>
            0 \<le> e_r (declared_range env ws) \<and> 0 \<le> e_c (declared_range env ws) \<and>
            (case sheet_to_json env ws of Inl err \<Rightarrow> False | Inr rows \<Rightarrow> True))
       (SheetNames wb)"

section \<open>Reading off what is rendered\<close>

text \<open>The number of input rows and of column headers of a rendered grid (0 when no grid is shown).\<close>

fun shown_rows :: "js_exn + view \<Rightarrow> nat" where
  "shown_rows (Inr (GridView g)) = length (inputs g)"
| "shown_rows other = 0"

fun shown_cols :: "js_exn + view \<Rightarrow> nat" where
  "shown_cols (Inr (GridView g)) = length (headers g)"
| "shown_cols other = 0"

section \<open>The cells a state holds\<close>




section \<open>Column labels are bijective base-26 numerals\<close>

lemma getColumnLabel_loop_append:
  "getColumnLabel_loop n acc = getColumnLabel_loop n [] @ acc"
proof (induction "nat (n + 1)" arbitrary: n acc rule: less_induct)
  case less
  show ?case
  proof (cases "n \<ge> 0")
    case True
    let ?c = "char_of (65 + n mod 26) :: char"
    let ?m = "n div 26 - 1"
    have lt: "nat (?m + 1) < nat (n + 1)" using True by simp
    have a: "getColumnLabel_loop n acc = getColumnLabel_loop ?m (?c # acc)"
      using True by simp
    have b: "getColumnLabel_loop n [] = getColumnLabel_loop ?m [?c]"
      using True by simp
    have c: "getColumnLabel_loop ?m (?c # acc) = getColumnLabel_loop ?m [] @ (?c # acc)"
      using less[OF lt] .
    have d: "getColumnLabel_loop ?m [?c] = getColumnLabel_loop ?m [] @ [?c]"
      using less[OF lt] .
    show ?thesis unfolding a b c d by simp
  next
    case False then show ?thesis by simp
  qed
qed

lemma getColumnLabel_neg: "n < 0 \<Longrightarrow> getColumnLabel n = []"
  by (simp add: getColumnLabel_def)

lemma getColumnLabel_step:
  "0 \<le> n \<Longrightarrow> getColumnLabel n = getColumnLabel (n div 26 - 1) @ [char_of (65 + n mod 26)]"
  unfolding getColumnLabel_def
  by (subst getColumnLabel_loop.simps, subst getColumnLabel_loop_append) simp

lemma letter_value_char_of:
  assumes "0 \<le> k" "k < 26"
  shows "letter_value (char_of (65 + k)) = k + 1"
proof -
  have "of_char (char_of (65 + k) :: char) = (65 + k) mod 256"
    by (simp add: of_char_of)
  also have "\<dots> = 65 + k" using assms by simp
  finally show ?thesis by (simp add: letter_value_def)
qed

lemma upper_AZ_char_of:
  assumes "0 \<le> (k::int)" "k < 26"
  shows "upper_AZ (char_of (65 + k))"
proof -
  have "of_char (char_of (65 + k) :: char) = (65 + k) mod 256"
    by (simp add: of_char_of)
  also have "\<dots> = 65 + k" using assms by simp
  finally show ?thesis using assms by (simp add: upper_AZ_def)
qed

lemma label_value_snoc: "label_value (s @ [c]) = label_value s * 26 + letter_value c"
  by (simp add: label_value_def)

lemma label_value_getColumnLabel:
  "-1 \<le> n \<Longrightarrow> label_value (getColumnLabel n) = n + 1"
proof (induction "nat (n + 1)" arbitrary: n rule: less_induct)
  case less
  show ?case
  proof (cases "n \<ge> 0")
    case True
    let ?m = "n div 26 - 1"
    have lt: "nat (?m + 1) < nat (n + 1)" using True by simp
    have m: "-1 \<le> ?m" using True by simp
    have "label_value (getColumnLabel n) = label_value (getColumnLabel ?m) * 26 + letter_value (char_of (65 + n mod 26))"
      using True by (simp add: getColumnLabel_step label_value_snoc)
    also have "\<dots> = (?m + 1) * 26 + (n mod 26 + 1)"
      using less(1)[OF lt m] by (simp add: letter_value_char_of)
    also have "\<dots> = n + 1" by simp
    finally show ?thesis .
  next
    case False
    then have "n = -1" using less.prems by simp
    then show ?thesis by (simp add: getColumnLabel_def label_value_def)
  qed
qed

lemma getColumnLabel_inj:
  assumes "0 \<le> m" "0 \<le> n" "getColumnLabel m = getColumnLabel n"
  shows "m = n"
proof -
  have "m + 1 = label_value (getColumnLabel m)" using assms(1) by (simp add: label_value_getColumnLabel)
  also have "\<dots> = n + 1" using assms(2,3) by (simp add: label_value_getColumnLabel)
  finally show ?thesis by simp
qed

lemma getColumnLabel_nonempty: "0 \<le> n \<Longrightarrow> getColumnLabel n \<noteq> []"
  by (simp add: getColumnLabel_step)

lemma getColumnLabel_upper: "c \<in> set (getColumnLabel n) \<Longrightarrow> upper_AZ c"
proof (induction "nat (n + 1)" arbitrary: n rule: less_induct)
  case less
  show ?case
  proof (cases "n \<ge> 0")
    case True
    let ?m = "n div 26 - 1"
    have lt: "nat (?m + 1) < nat (n + 1)" using True by simp
    have "c \<in> set (getColumnLabel ?m) \<or> c = char_of (65 + n mod 26)"
      using less.prems True by (auto simp add: getColumnLabel_step)
    then show ?thesis
    proof
      assume "c \<in> set (getColumnLabel ?m)"
      then show ?thesis using less(1)[OF lt] by simp
    next
      assume "c = char_of (65 + n mod 26)"
      then show ?thesis by (simp add: upper_AZ_char_of)
    qed
  next
    case False
    then show ?thesis using less.prems by (simp add: getColumnLabel_neg)
  qed
qed

text \<open>
  Claim C5. For every non-negative index, \<open>getColumnLabel\<close> returns the spreadsheet
  column label: 0, 25, 26, 27, 701 and 702 give A, Z, AA, AB, ZZ and AAA; read as a
  bijective base-26 numeral the label of \<open>n\<close> is \<open>n + 1\<close>; two different non-negative
  indices never share a label; and the label is a non-empty string of the letters A to Z.
\<close>

theorem C5_getColumnLabel:
  "getColumnLabel 0 = ''A'' \<and> getColumnLabel 25 = ''Z'' \<and> getColumnLabel 26 = ''AA'' \<and>
   getColumnLabel 27 = ''AB'' \<and> getColumnLabel 701 = ''ZZ'' \<and> getColumnLabel 702 = ''AAA'' \<and>
   (\<forall>n\<ge>0. label_value (getColumnLabel n) = n + 1) \<and>
   (\<forall>m\<ge>0. \<forall>n\<ge>0. getColumnLabel m = getColumnLabel n \<longrightarrow> m = n) \<and>
   (\<forall>n\<ge>0. getColumnLabel n \<noteq> [] \<and> (\<forall>c\<in>set (getColumnLabel n). upper_AZ c))"
proof -
  have "getColumnLabel 0 = ''A''" "getColumnLabel 25 = ''Z''" "getColumnLabel 26 = ''AA''"
    "getColumnLabel 27 = ''AB''" "getColumnLabel 701 = ''ZZ''" "getColumnLabel 702 = ''AAA''"
    by code_simp+
  moreover have "\<forall>n\<ge>0. label_value (getColumnLabel n) = n + 1"
    by (simp add: label_value_getColumnLabel)
  moreover have "\<forall>m\<ge>0. \<forall>n\<ge>0. getColumnLabel m = getColumnLabel n \<longrightarrow> m = n"
    using getColumnLabel_inj by blast
  moreover have "\<forall>n\<ge>0. getColumnLabel n \<noteq> [] \<and> (\<forall>c\<in>set (getColumnLabel n). upper_AZ c)"
    using getColumnLabel_nonempty getColumnLabel_upper by blast
  ultimately show ?thesis by blast
qed

text \<open>The claim at the indices 27 and 701.\<close>

theorem C5_getColumnLabel_witness:
  "(0::int) \<le> 27 \<and> (0::int) \<le> 701 \<and> label_value (getColumnLabel 27) = 28 \<and>
   getColumnLabel 27 \<noteq> getColumnLabel 701 \<and> getColumnLabel 27 \<noteq> [] \<and>
   CHR ''B'' \<in> set (getColumnLabel 27) \<and> upper_AZ (CHR ''B'')"
proof -
  have l: "getColumnLabel 27 = ''AB''" by code_simp
  from C5_getColumnLabel have "\<forall>n\<ge>0. label_value (getColumnLabel n) = n + 1" by blast
  then have a: "label_value (getColumnLabel 27) = 28" by simp
  from C5_getColumnLabel
  have "\<forall>m\<ge>0. \<forall>n\<ge>0. getColumnLabel m = getColumnLabel n \<longrightarrow> m = n" by blast
  then have "(0::int) \<le> 27 \<longrightarrow> (0::int) \<le> 701 \<longrightarrow>
      getColumnLabel 27 = getColumnLabel 701 \<longrightarrow> (27::int) = 701" by blast
  then have b: "getColumnLabel 27 \<noteq> getColumnLabel 701" by simp
  from C5_getColumnLabel
  have "\<forall>n\<ge>0. getColumnLabel n \<noteq> [] \<and> (\<forall>c\<in>set (getColumnLabel n). upper_AZ c)" by blast
  then have "(0::int) \<le> 27 \<longrightarrow>
      getColumnLabel 27 \<noteq> [] \<and> (\<forall>c\<in>set (getColumnLabel 27). upper_AZ c)" by blast
  then have c: "getColumnLabel 27 \<noteq> [] \<and> (\<forall>c\<in>set (getColumnLabel 27). upper_AZ c)" by simp
  have d: "CHR ''B'' \<in> set (getColumnLabel 27)" by (simp add: l)
  have e: "upper_AZ (CHR ''B'')" using c d by blast
  show ?thesis using a b c d e by simp
qed

section \<open>The conversion for the rich-grid widget\<close>

lemma row_forEach_eq:
  "row_forEach r c row result = result @ row_records r c row"
  by (induction row arbitrary: c result) (auto simp: row_records_def blank_def)

lemma data_forEach_eq:
  "data_forEach r rows result =
     result @ concat (map (\<lambda>(r', row). row_records r' 0 row) (enumerate r rows))"
  by (induction rows arbitrary: r result) (auto simp: row_forEach_eq)

lemma convert_row_major:
  "convertToLuckysheetData d =
     map (\<lambda>(r, c, x). ls_record r c x) (filter (\<lambda>(r, c, x). \<not> blank x) (row_major d))"
proof -
  have "map (\<lambda>(r, c, x). ls_record r c x) (filter (\<lambda>(r, c, x). \<not> blank x) (row_major d))
          = concat (map (\<lambda>(r', row). row_records r' 0 row) (enumerate 0 d))"
    unfolding row_major_def row_records_def
    by (simp add: filter_concat map_concat comp_def filter_map case_prod_unfold)
  then show ?thesis
    by (simp add: convertToLuckysheetData_def data_forEach_eq)
qed

lemma convert_eq_spec: "convertToLuckysheetData d = luckysheet_spec d"
  by (simp add: convert_row_major luckysheet_spec_def ls_record_def)

lemma row_major_mem:
  "(r, c, x) \<in> set (row_major d) \<longleftrightarrow> r < length d \<and> c < length (d ! r) \<and> x = d ! r ! c"
proof
  assume "(r, c, x) \<in> set (row_major d)"
  then show "r < length d \<and> c < length (d ! r) \<and> x = d ! r ! c"
    unfolding row_major_def by (auto simp: in_set_enumerate_eq)
next
  assume a: "r < length d \<and> c < length (d ! r) \<and> x = d ! r ! c"
  then have "(r, d ! r) \<in> set (enumerate 0 d)" "(c, x) \<in> set (enumerate 0 (d ! r))"
    by (simp_all add: in_set_enumerate_eq)
  then show "(r, c, x) \<in> set (row_major d)"
    unfolding row_major_def by force
qed

lemma row_major_cells: "map (\<lambda>(r, c, x). x) (row_major d) = concat d"
proof -
  have "map (\<lambda>(r, c, x). x) (row_major d) = concat (map (\<lambda>(r, row). map snd (enumerate 0 row)) (enumerate 0 d))"
    unfolding row_major_def
    by (simp add: map_concat comp_def case_prod_unfold)
  also have "\<dots> = concat (map snd (enumerate 0 d))"
    by (simp add: case_prod_unfold)
  also have "\<dots> = concat d" by simp
  finally show ?thesis .
qed

lemma length_convert:
  "length (convertToLuckysheetData d) = length (filter (\<lambda>cell. \<not> blank cell) (concat d))"
proof -
  have "length (convertToLuckysheetData d) = length (filter (\<lambda>(r, c, x). \<not> blank x) (row_major d))"
    by (simp add: convert_row_major)
  also have "\<dots> = length (filter (\<lambda>cell. \<not> blank cell) (map (\<lambda>(r, c, x). x) (row_major d)))"
    by (simp add: filter_map comp_def case_prod_unfold)
  finally show ?thesis by (simp add: row_major_cells)
qed

lemma convert_positions:
  "map (\<lambda>rec. (ls_r rec, ls_c rec, lv_v (ls_v rec))) (convertToLuckysheetData d)
     = filter (\<lambda>(r, c, x). \<not> blank x) (row_major d)"
  by (simp add: convert_row_major comp_def case_prod_unfold ls_record_def)

lemma convert_fields:
  assumes "rec \<in> set (convertToLuckysheetData d)"
  shows "ls_r rec < length d \<and> ls_c rec < length (d ! ls_r rec) \<and>
         lv_v (ls_v rec) = d ! ls_r rec ! ls_c rec \<and>
         lv_v (ls_v rec) \<noteq> JNull \<and> lv_v (ls_v rec) \<noteq> JUndefined \<and> lv_v (ls_v rec) \<noteq> JStr [] \<and>
         lv_m (ls_v rec) = String_js (lv_v (ls_v rec)) \<and>
         lv_ct (ls_v rec) = \<lparr>ct_fa = ''General'', ct_t = ''g''\<rparr> \<and>
         lv_bg (ls_v rec) = None \<and> lv_bl (ls_v rec) = 0 \<and> lv_it (ls_v rec) = 0 \<and>
         lv_ff (ls_v rec) = ''Arial'' \<and> lv_fs (ls_v rec) = 10 \<and>
         lv_fc (ls_v rec) = ''#000000'' \<and> lv_ht (ls_v rec) = 1 \<and> lv_vt (ls_v rec) = 1"
proof -
  from assms obtain r c x where m: "(r, c, x) \<in> set (row_major d)" "\<not> blank x"
    and rec: "rec = ls_record r c x"
    unfolding convert_row_major by auto
  from m(1) have "r < length d \<and> c < length (d ! r) \<and> x = d ! r ! c"
    by (simp add: row_major_mem)
  then show ?thesis using m(2) by (simp add: rec ls_record_def blank_def)
qed

text \<open>
  Claim C6. \<open>convertToLuckysheetData\<close> emits exactly one record for every cell of the row
  array that is not null, not undefined and not the empty string, in row-major order, and
  none for the others: it equals the conversion as the specification words it; the number
  of records is the number of such cells; the positions and raw values of the records, in
  the order they are emitted, are those of such cells in row-major order; and every record
  carries the row index, the column index and the raw value of its cell, the string form
  of that value as display text, and the fixed style fields (general cell type, no
  background, not bold, not italic, Arial 10, black, and the alignment codes 1 and 1).
\<close>

theorem C6_convertToLuckysheetData:
  "convertToLuckysheetData d = luckysheet_spec d \<and>
   length (convertToLuckysheetData d) = length (filter (\<lambda>cell. \<not> blank cell) (concat d)) \<and>
   map (\<lambda>rec. (ls_r rec, ls_c rec, lv_v (ls_v rec))) (convertToLuckysheetData d)
     = filter (\<lambda>(r, c, x). x \<noteq> JNull \<and> x \<noteq> JUndefined \<and> x \<noteq> JStr []) (row_major d) \<and>
   (\<forall>rec\<in>set (convertToLuckysheetData d).
      ls_r rec < length d \<and> ls_c rec < length (d ! ls_r rec) \<and>
      lv_v (ls_v rec) = d ! ls_r rec ! ls_c rec \<and>
      lv_v (ls_v rec) \<noteq> JNull \<and> lv_v (ls_v rec) \<noteq> JUndefined \<and> lv_v (ls_v rec) \<noteq> JStr [] \<and>
      lv_m (ls_v rec) = String_js (lv_v (ls_v rec)) \<and>
      lv_ct (ls_v rec) = \<lparr>ct_fa = ''General'', ct_t = ''g''\<rparr> \<and>
      lv_bg (ls_v rec) = None \<and> lv_bl (ls_v rec) = 0 \<and> lv_it (ls_v rec) = 0 \<and>
      lv_ff (ls_v rec) = ''Arial'' \<and> lv_fs (ls_v rec) = 10 \<and>
      lv_fc (ls_v rec) = ''#000000'' \<and> lv_ht (ls_v rec) = 1 \<and> lv_vt (ls_v rec) = 1)"
proof -
  have p: "map (\<lambda>rec. (ls_r rec, ls_c rec, lv_v (ls_v rec))) (convertToLuckysheetData d)
     = filter (\<lambda>(r, c, x). x \<noteq> JNull \<and> x \<noteq> JUndefined \<and> x \<noteq> JStr []) (row_major d)"
    by (simp add: convert_positions blank_def)
  have f: "\<forall>rec\<in>set (convertToLuckysheetData d).
      ls_r rec < length d \<and> ls_c rec < length (d ! ls_r rec) \<and>
      lv_v (ls_v rec) = d ! ls_r rec ! ls_c rec \<and>
      lv_v (ls_v rec) \<noteq> JNull \<and> lv_v (ls_v rec) \<noteq> JUndefined \<and> lv_v (ls_v rec) \<noteq> JStr [] \<and>
      lv_m (ls_v rec) = String_js (lv_v (ls_v rec)) \<and>
      lv_ct (ls_v rec) = \<lparr>ct_fa = ''General'', ct_t = ''g''\<rparr> \<and>
      lv_bg (ls_v rec) = None \<and> lv_bl (ls_v rec) = 0 \<and> lv_it (ls_v rec) = 0 \<and>
      lv_ff (ls_v rec) = ''Arial'' \<and> lv_fs (ls_v rec) = 10 \<and>
      lv_fc (ls_v rec) = ''#000000'' \<and> lv_ht (ls_v rec) = 1 \<and> lv_vt (ls_v rec) = 1"
    by (intro ballI) (rule convert_fields)
  show ?thesis using convert_eq_spec length_convert p f by blast
qed

text \<open>A row array with a text, a null, a hole, the number 0 and an empty string.\<close>

theorem C6_convertToLuckysheetData_witness:
  "convertToLuckysheetData [[JStr ''a'', JNull], [JUndefined, JNum 0, JStr []]] =
     [\<lparr>ls_r = 0, ls_c = 0,
       ls_v = \<lparr>lv_v = JStr ''a'', lv_ct = \<lparr>ct_fa = ''General'', ct_t = ''g''\<rparr>, lv_m = ''a'',
               lv_bg = None, lv_bl = 0, lv_it = 0, lv_ff = ''Arial'', lv_fs = 10,
               lv_fc = ''#000000'', lv_ht = 1, lv_vt = 1\<rparr>\<rparr>,
      \<lparr>ls_r = 1, ls_c = 1,
       ls_v = \<lparr>lv_v = JNum 0, lv_ct = \<lparr>ct_fa = ''General'', ct_t = ''g''\<rparr>, lv_m = ''0'',
               lv_bg = None, lv_bl = 0, lv_it = 0, lv_ff = ''Arial'', lv_fs = 10,
               lv_fc = ''#000000'', lv_ht = 1, lv_vt = 1\<rparr>\<rparr>]"
proof -
  have zero: "String_js (JNum 0) = ''0''" by code_simp
  have str: "String_js (JStr ''a'') = ''a''" by simp
  have "convertToLuckysheetData [[JStr ''a'', JNull], [JUndefined, JNum 0, JStr []]]
          = luckysheet_spec [[JStr ''a'', JNull], [JUndefined, JNum 0, JStr []]]"
    using C6_convertToLuckysheetData [of "[[JStr ''a'', JNull], [JUndefined, JNum 0, JStr []]]"]
    by (elim conjE)
  also have "\<dots> = [\<lparr>ls_r = 0, ls_c = 0,
       ls_v = \<lparr>lv_v = JStr ''a'', lv_ct = \<lparr>ct_fa = ''General'', ct_t = ''g''\<rparr>, lv_m = ''a'',
               lv_bg = None, lv_bl = 0, lv_it = 0, lv_ff = ''Arial'', lv_fs = 10,
               lv_fc = ''#000000'', lv_ht = 1, lv_vt = 1\<rparr>\<rparr>,
      \<lparr>ls_r = 1, ls_c = 1,
       ls_v = \<lparr>lv_v = JNum 0, lv_ct = \<lparr>ct_fa = ''General'', ct_t = ''g''\<rparr>, lv_m = ''0'',
               lv_bg = None, lv_bl = 0, lv_it = 0, lv_ff = ''Arial'', lv_fs = 10,
               lv_fc = ''#000000'', lv_ht = 1, lv_vt = 1\<rparr>\<rparr>]"
    by (simp add: luckysheet_spec_def row_major_def blank_def zero str del: String_js.simps)
  finally show ?thesis .
qed

section \<open>The loaded cell matrix\<close>

lemma js_set_at_length: "js_set xs (length xs) x = xs @ [Some x]"
  by (simp add: js_set_def)

lemma col_loop_eq:
  "length acc = col \<Longrightarrow>
   col_loop env sn ws row cols col acc =
     acc @ map (\<lambda>c. Some (cellAt env sn ws row c)) [col..<nat cols]"
proof (induction env sn ws row cols col acc rule: col_loop.induct)
  case (1 env sn ws row cols col acc)
  show ?case
  proof (cases "int col < cols")
    case True
    then have lt: "col < nat cols" by simp
    have "col_loop env sn ws row cols col acc =
            col_loop env sn ws row cols (Suc col) (js_set acc col (cellAt env sn ws row col))"
      using True by (subst col_loop.simps) simp
    also have "\<dots> = js_set acc col (cellAt env sn ws row col)
                      @ map (\<lambda>c. Some (cellAt env sn ws row c)) [Suc col..<nat cols]"
      by (rule 1(1)[OF True]) (simp add: js_set_def 1(2))
    also have "\<dots> = acc @ map (\<lambda>c. Some (cellAt env sn ws row c)) [col..<nat cols]"
      using 1(2) lt by (simp add: js_set_def upt_conv_Cons)
    finally show ?thesis .
  next
    case False
    then show ?thesis by (subst col_loop.simps) simp
  qed
qed

lemma row_loop_eq:
  "length acc = row \<Longrightarrow>
   row_loop env sn ws rows cols row acc =
     acc @ map (\<lambda>r. Some (map (\<lambda>c. Some (cellAt env sn ws r c)) [0..<nat cols])) [row..<nat rows]"
proof (induction env sn ws rows cols row acc rule: row_loop.induct)
  case (1 env sn ws rows cols row acc)
  show ?case
  proof (cases "int row < rows")
    case True
    then have lt: "row < nat rows" by simp
    let ?r = "col_loop env sn ws row cols 0 []"
    have r: "?r = map (\<lambda>c. Some (cellAt env sn ws row c)) [0..<nat cols]"
      by (simp add: col_loop_eq)
    have "row_loop env sn ws rows cols row acc = row_loop env sn ws rows cols (Suc row) (js_set acc row ?r)"
      using True by (subst row_loop.simps) simp
    also have "\<dots> = js_set acc row ?r
        @ map (\<lambda>r. Some (map (\<lambda>c. Some (cellAt env sn ws r c)) [0..<nat cols])) [Suc row..<nat rows]"
      by (rule 1(1)[OF True]) (simp add: js_set_def 1(2))
    also have "\<dots> = acc @ map (\<lambda>r. Some (map (\<lambda>c. Some (cellAt env sn ws r c)) [0..<nat cols])) [row..<nat rows]"
      using 1(2) lt by (simp add: js_set_def upt_conv_Cons r)
    finally show ?thesis .
  next
    case False
    then show ?thesis by (subst row_loop.simps) simp
  qed
qed

lemma cellMatrix_eq:
  "cellMatrix env sn ws =
     map (\<lambda>r. Some (map (\<lambda>c. Some (cellAt env sn ws r c)) [0..<nat (e_c (sheet_range env ws) + 1)]))
       [0..<nat (e_r (sheet_range env ws) + 1)]"
  by (simp add: cellMatrix_def Let_def row_loop_eq)

lemma sheet_range_declared: "sheet_range env ws = declared_range env ws"
  by (simp add: sheet_range_def declared_range_def str_or_def split: option.splits)

lemma sheetData_Inr:
  assumes "sheetData env worksheets sheetName = Inr (sh, worksheets')"
  shows "\<exists>ws rows texts. worksheets sheetName = Some ws \<and> name sh = sheetName \<and>
           data sh = cellMatrix env sheetName ws \<and>
           sheet_to_json env ws = Inr (rows, texts) \<and> rawData sh = rows \<and>
           worksheets' = worksheets(sheetName \<mapsto> written texts ws)"
proof (cases "worksheets sheetName")
  case None
  then show ?thesis using assms by (simp add: sheetData_def)
next
  case (Some ws)
  show ?thesis
  proof (cases "sheet_to_json env ws")
    case (Inl err)
    then show ?thesis using assms Some by (simp add: sheetData_def)
  next
    case (Inr p)
    obtain rows texts where p: "p = (rows, texts)" by (cases p)
    show ?thesis using assms Some Inr p by (auto simp: sheetData_def)
  qed
qed

lemma extractCell_fields:
  "value (extractCell env ref co) =
     (case cell_w co of
        Some x \<Rightarrow> if x \<noteq> [] then JStr x else if truthy (cell_v co) then cell_v co else JStr []
      | None \<Rightarrow> if truthy (cell_v co) then cell_v co else JStr [])"
  "formula (extractCell env ref co) =
     (case cell_f co of Some x \<Rightarrow> if x \<noteq> [] then Some x else None | None \<Rightarrow> None)"
  "type (extractCell env ref co) = (case cell_t co of Some x \<Rightarrow> if x \<noteq> [] then x else ''n'' | None \<Rightarrow> ''n'')"
  "style (extractCell env ref co) = cell_s co"
  "backgroundColor (extractCell env ref co) = getCellBackgroundColor co"
  "textColor (extractCell env ref co) = getCellTextColor co"
  "isBold (extractCell env ref co) = isCellBold co"
  "isItalic (extractCell env ref co) = isCellItalic co"
  "fontSize (extractCell env ref co) = getCellFontSize co"
  "fontFamily (extractCell env ref co) = getCellFontFamily co"
  "alignment (extractCell env ref co) = getCellAlignment co"
  "border (extractCell env ref co) = getCellBorder co"
  "originalCell (extractCell env ref co) = Some ref"
  by (simp_all add: extractCell_def Let_def js_or_def str_or_def split: option.splits)

lemma defaultCell_fields:
  "value (defaultCell x) = x" "formula (defaultCell x) = None" "type (defaultCell x) = ''n''"
  "style (defaultCell x) = None" "backgroundColor (defaultCell x) = None"
  "textColor (defaultCell x) = None" "isBold (defaultCell x) = JBool False"
  "isItalic (defaultCell x) = JBool False" "fontSize (defaultCell x) = None"
  "fontFamily (defaultCell x) = None" "alignment (defaultCell x) = None"
  "border (defaultCell x) = None" "originalCell (defaultCell x) = None"
  "debugInfo (defaultCell x) = None"
  by (simp_all add: defaultCell_def)

lemma indexedColors_palette: "indexedColors i = palette i"
  by (simp add: indexedColors_def palette_def)

lemma background_lookup:
  "getCellBackgroundColor co =
     (case Option.bind (Option.bind (cell_s co) fill) bgColor of
        None \<Rightarrow> None
      | Some col \<Rightarrow>
          if rgb col \<noteq> None \<and> rgb col \<noteq> Some []
          then map_option (\<lambda>x. CHR ''#'' # drop 2 x) (rgb col)
          else if indexed col \<noteq> None \<and> indexed col \<noteq> Some 0
          then Option.bind (indexed col) palette
          else None)"
  by (auto simp: getCellBackgroundColor_def rgb_hex_def indexedColors_palette
           split: option.splits)

lemma foreground_lookup:
  "getCellTextColor co =
     (case Option.bind (Option.bind (cell_s co) font) font_color of
        None \<Rightarrow> None
      | Some col \<Rightarrow>
          if rgb col \<noteq> None \<and> rgb col \<noteq> Some []
          then map_option (\<lambda>x. CHR ''#'' # drop 2 x) (rgb col)
          else None)"
  by (auto simp: getCellTextColor_def rgb_hex_def split: option.splits)

lemma font_lookups:
  "isCellBold co = (case Option.bind (cell_s co) font of None \<Rightarrow> JUndefined | Some fnt \<Rightarrow> bold fnt)"
  "isCellItalic co = (case Option.bind (cell_s co) font of None \<Rightarrow> JUndefined | Some fnt \<Rightarrow> italic fnt)"
  "getCellFontSize co =
     (case Option.bind (Option.bind (cell_s co) font) sz of
        None \<Rightarrow> None
      | Some n \<Rightarrow> if n = 0 then None else Some (String_js (JNum n) @ ''px''))"
  "getCellFontFamily co =
     (case Option.bind (Option.bind (cell_s co) font) font_name of
        None \<Rightarrow> None
      | Some x \<Rightarrow> if x = [] then None else Some x)"
proof -
  show "isCellBold co = (case Option.bind (cell_s co) font of None \<Rightarrow> JUndefined | Some fnt \<Rightarrow> bold fnt)"
    by (cases "cell_s co") (simp_all add: isCellBold_def)
  show "isCellItalic co = (case Option.bind (cell_s co) font of None \<Rightarrow> JUndefined | Some fnt \<Rightarrow> italic fnt)"
    by (cases "cell_s co") (simp_all add: isCellItalic_def)
  show "getCellFontSize co =
     (case Option.bind (Option.bind (cell_s co) font) sz of
        None \<Rightarrow> None
      | Some n \<Rightarrow> if n = 0 then None else Some (String_js (JNum n) @ ''px''))"
  proof (cases "cell_s co")
    case None
    then show ?thesis by (simp add: getCellFontSize_def)
  next
    case (Some st)
    then show ?thesis
      by (cases "font st") (simp_all add: getCellFontSize_def split: option.splits)
  qed
  show "getCellFontFamily co =
     (case Option.bind (Option.bind (cell_s co) font) font_name of
        None \<Rightarrow> None
      | Some x \<Rightarrow> if x = [] then None else Some x)"
  proof (cases "cell_s co")
    case None
    then show ?thesis by (simp add: getCellFontFamily_def)
  next
    case (Some st)
    then show ?thesis
      by (cases "font st") (simp_all add: getCellFontFamily_def split: option.splits)
  qed
qed

lemma alignment_lookup:
  "getCellAlignment co =
     map_option
       (\<lambda>al. \<lparr>horizontal = (case a_horizontal al of
                               None \<Rightarrow> ''left''
                             | Some h \<Rightarrow> if h = [] then ''left'' else h),
               vertical = (case a_vertical al of
                             None \<Rightarrow> ''middle''
                           | Some u \<Rightarrow> if u = [] then ''middle'' else u)\<rparr>)
       (Option.bind (cell_s co) s_alignment)"
proof (cases "cell_s co")
  case None
  then show ?thesis by (simp add: getCellAlignment_def)
next
  case (Some st)
  then show ?thesis
    by (cases "s_alignment st") (simp_all add: getCellAlignment_def str_or_def split: option.splits)
qed

lemma border_lookup: "getCellBorder co = Option.bind (cell_s co) s_border"
  by (cases "cell_s co") (simp_all add: getCellBorder_def)

lemma looked_up_extractCell: "looked_up co (extractCell env ref co)"
  unfolding looked_up_def Let_def extractCell_fields
  by (intro conjI refl background_lookup foreground_lookup font_lookups alignment_lookup
        border_lookup)

lemma cellAt_cases:
  "(case ws_cells ws (encode_cell env r c) of
      Some co \<Rightarrow> looked_up co (cellAt env sn ws r c) \<and>
                 originalCell (cellAt env sn ws r c) = Some (CellRef sn (encode_cell env r c))
    | None \<Rightarrow> unstyled_default (cellAt env sn ws r c))"
  by (simp add: cellAt_def Let_def looked_up_extractCell unstyled_default_def extractCell_fields
           defaultCell_fields split: option.splits)

text \<open>
  Claim C7. The cell matrix of every sheet that loads is rectangular and fully populated:
  it has one row for every row index below the row count (the end row of the declared
  range plus one), every row has exactly the column count of entries, and every position
  holds a record: a direct lookup of the cell object where the worksheet has one at that
  address, holding a reference to that object, and the default record where it has none.
\<close>

theorem C7_cellMatrix:
  assumes "sheetData env worksheets sheetName = Inr (sh, worksheets')"
  shows "\<exists>ws. worksheets sheetName = Some ws \<and>
           length (data sh) = nat (e_r (declared_range env ws) + 1) \<and>
           (\<forall>r<length (data sh). \<exists>row. data sh ! r = Some row \<and>
              length row = nat (e_c (declared_range env ws) + 1) \<and>
              (\<forall>c<length row. \<exists>cell. row ! c = Some cell \<and>
                 (case ws_cells ws (encode_cell env r c) of
                    Some co \<Rightarrow> looked_up co cell \<and>
                               originalCell cell = Some (CellRef sheetName (encode_cell env r c))
                  | None \<Rightarrow> unstyled_default cell)))"
proof -
  from sheetData_Inr[OF assms] obtain ws where
    ws: "worksheets sheetName = Some ws" and d: "data sh = cellMatrix env sheetName ws" by blast
  let ?rows = "nat (e_r (declared_range env ws) + 1)"
  let ?cols = "nat (e_c (declared_range env ws) + 1)"
  have len: "length (data sh) = ?rows" by (simp add: d cellMatrix_eq sheet_range_declared)
  have rows: "\<exists>row. data sh ! r = Some row \<and> length row = ?cols \<and>
              (\<forall>c<length row. \<exists>cell. row ! c = Some cell \<and>
                 (case ws_cells ws (encode_cell env r c) of
                    Some co \<Rightarrow> looked_up co cell \<and>
                               originalCell cell = Some (CellRef sheetName (encode_cell env r c))
                  | None \<Rightarrow> unstyled_default cell))" if "r < length (data sh)" for r
  proof -
    let ?row = "map (\<lambda>c. Some (cellAt env sheetName ws r c)) [0..<?cols]"
    have "data sh ! r = Some ?row" using that len by (simp add: d cellMatrix_eq sheet_range_declared)
    moreover have "length ?row = ?cols" by simp
    moreover have "\<forall>c<length ?row. \<exists>cell. ?row ! c = Some cell \<and>
                 (case ws_cells ws (encode_cell env r c) of
                    Some co \<Rightarrow> looked_up co cell \<and>
                               originalCell cell = Some (CellRef sheetName (encode_cell env r c))
                  | None \<Rightarrow> unstyled_default cell)"
      using cellAt_cases[where ws=ws and env=env and r=r and sn=sheetName] by simp
    ultimately show ?thesis by blast
  qed
  show ?thesis using ws len rows by blast
qed

text \<open>The first sheet of the example workbook: 2x2, with the styled cell A2 and nothing at B2.\<close>

lemma demo_Sheets:
  "SheetNames demo_workbook = [''Sheet1'', ''Blank'']"
  "Sheets demo_workbook ''Sheet1'' = Some demo_Sheet1"
  "Sheets demo_workbook ''Blank'' = Some demo_Blank"
  by (simp_all add: demo_workbook_def)

lemma demo_json:
  "\<exists>texts. sheet_to_json demo_env demo_Sheet1 = Inr ([], texts)"
  "\<exists>texts. sheet_to_json demo_env demo_Blank = Inr ([], texts)"
  by (simp_all add: demo_env_def demo_sheet_to_json_def demo_Sheet1_def demo_Blank_def demo_A1_def)

lemma demo_ranges:
  "declared_range demo_env demo_Sheet1 = \<lparr>s_r = 0, s_c = 0, e_r = 1, e_c = 1\<rparr>"
  "declared_range demo_env demo_Blank = \<lparr>s_r = 0, s_c = 0, e_r = 0, e_c = 0\<rparr>"
  by (simp_all add: declared_range_def demo_env_def demo_Sheet1_def demo_Blank_def)

lemma demo_addresses:
  "encode_cell demo_env 0 0 = ''A1''" "encode_cell demo_env 0 1 = ''B1''"
  "encode_cell demo_env 1 0 = ''A2''" "encode_cell demo_env 1 1 = ''B2''"
proof -
  have e: "encode_cell demo_env r c = getColumnLabel (int c) @ String_js (JNum (int r + 1))" for r c
    by (simp add: demo_env_def)
  have "getColumnLabel (int 0) @ String_js (JNum (int 0 + 1)) = ''A1''"
    "getColumnLabel (int 1) @ String_js (JNum (int 0 + 1)) = ''B1''"
    "getColumnLabel (int 0) @ String_js (JNum (int 1 + 1)) = ''A2''"
    "getColumnLabel (int 1) @ String_js (JNum (int 1 + 1)) = ''B2''"
    by code_simp+
  then show "encode_cell demo_env 0 0 = ''A1''" "encode_cell demo_env 0 1 = ''B1''"
    "encode_cell demo_env 1 0 = ''A2''" "encode_cell demo_env 1 1 = ''B2''"
    unfolding e .
qed

lemma demo_sheetData:
  "\<exists>sh worksheets'. sheetData demo_env (Sheets demo_workbook) ''Sheet1'' = Inr (sh, worksheets')"
proof -
  from demo_json(1) obtain texts where "sheet_to_json demo_env demo_Sheet1 = Inr ([], texts)"
    by blast
  then show ?thesis by (simp add: sheetData_def demo_Sheets)
qed

lemma demo_A2_looked_up:
  assumes "looked_up demo_A2 cell"
  shows "backgroundColor cell = Some ''#ffff00''" "textColor cell = Some ''#112233''"
    "isBold cell = JBool True" "isItalic cell = JUndefined" "fontSize cell = Some ''11px''"
    "fontFamily cell = Some ''Calibri''"
    "alignment cell = Some \<lparr>horizontal = ''right'', vertical = ''middle''\<rparr>"
    "value cell = JStr ''7''"
proof -
  have px: "String_js (JNum 11) = ''11''" by code_simp
  note l = assms[unfolded looked_up_def Let_def]
  show "backgroundColor cell = Some ''#ffff00''"
    using l by (simp add: demo_A2_def demo_bold_def palette_def)
  show "textColor cell = Some ''#112233''"
    using l by (simp add: demo_A2_def demo_bold_def)
  show "isBold cell = JBool True" "isItalic cell = JUndefined"
    using l by (simp_all add: demo_A2_def demo_bold_def)
  show "fontSize cell = Some ''11px''"
    using l by (simp add: demo_A2_def demo_bold_def px del: String_js.simps)
  show "fontFamily cell = Some ''Calibri''"
    using l by (simp add: demo_A2_def demo_bold_def)
  show "alignment cell = Some \<lparr>horizontal = ''right'', vertical = ''middle''\<rparr>"
    using l by (simp add: demo_A2_def demo_bold_def)
  show "value cell = JStr ''7''"
    using l by (simp add: demo_A2_def)
qed

theorem C7_cellMatrix_witness:
  "\<exists>sh worksheets'.
     sheetData demo_env (Sheets demo_workbook) ''Sheet1'' = Inr (sh, worksheets') \<and>
     length (data sh) = 2 \<and>
     (\<exists>row. data sh ! 1 = Some row \<and> length row = 2 \<and>
        (\<exists>cell. row ! 0 = Some cell \<and> looked_up demo_A2 cell \<and>
           originalCell cell = Some (CellRef ''Sheet1'' ''A2'') \<and>
           value cell = JStr ''7'' \<and>
           backgroundColor cell = Some ''#ffff00'' \<and> textColor cell = Some ''#112233'' \<and>
           isBold cell = JBool True \<and> fontSize cell = Some ''11px'' \<and>
           alignment cell = Some \<lparr>horizontal = ''right'', vertical = ''middle''\<rparr>) \<and>
        (\<exists>cell. row ! 1 = Some cell \<and> unstyled_default cell))"
proof -
  obtain sh worksheets' where
    sh: "sheetData demo_env (Sheets demo_workbook) ''Sheet1'' = Inr (sh, worksheets')"
    using demo_sheetData by blast
  have cA2: "ws_cells demo_Sheet1 ''A2'' = Some demo_A2" by (simp add: demo_Sheet1_def)
  have cB2: "ws_cells demo_Sheet1 ''B2'' = None" by (simp add: demo_Sheet1_def)
  from C7_cellMatrix[OF sh] obtain ws where
    ws: "Sheets demo_workbook ''Sheet1'' = Some ws"
    and len0: "length (data sh) = nat (e_r (declared_range demo_env ws) + 1)"
    and rows0: "\<forall>r<length (data sh). \<exists>row. data sh ! r = Some row \<and>
              length row = nat (e_c (declared_range demo_env ws) + 1) \<and>
              (\<forall>c<length row. \<exists>cell. row ! c = Some cell \<and>
                 (case ws_cells ws (encode_cell demo_env r c) of
                    Some co \<Rightarrow> looked_up co cell \<and>
                               originalCell cell = Some (CellRef ''Sheet1'' (encode_cell demo_env r c))
                  | None \<Rightarrow> unstyled_default cell))"
    by (elim exE conjE)
  have w: "ws = demo_Sheet1" using ws by (simp add: demo_Sheets)
  have len: "length (data sh) = 2" using len0 unfolding w by (simp add: demo_ranges)
  have "(1::nat) < length (data sh)" using len by simp
  with rows0 obtain row1 where r1: "data sh ! 1 = Some row1"
     "length row1 = nat (e_c (declared_range demo_env ws) + 1)"
     and cells: "\<forall>c<length row1. \<exists>cell. row1 ! c = Some cell \<and>
                 (case ws_cells ws (encode_cell demo_env 1 c) of
                    Some co \<Rightarrow> looked_up co cell \<and>
                               originalCell cell = Some (CellRef ''Sheet1'' (encode_cell demo_env 1 c))
                  | None \<Rightarrow> unstyled_default cell)"
    by blast
  have l1: "length row1 = 2" using r1(2) unfolding w by (simp add: demo_ranges)
  have "(0::nat) < length row1" using l1 by simp
  with cells obtain c0 where c0: "row1 ! 0 = Some c0"
    "(case ws_cells ws (encode_cell demo_env 1 0) of
        Some co \<Rightarrow> looked_up co c0 \<and>
                   originalCell c0 = Some (CellRef ''Sheet1'' (encode_cell demo_env 1 0))
      | None \<Rightarrow> unstyled_default c0)"
    by blast
  from c0(2) have a2: "looked_up demo_A2 c0" "originalCell c0 = Some (CellRef ''Sheet1'' ''A2'')"
    unfolding w demo_addresses cA2 by simp_all
  have "(1::nat) < length row1" using l1 by simp
  with cells obtain c1 where c1: "row1 ! 1 = Some c1"
    "(case ws_cells ws (encode_cell demo_env 1 1) of
        Some co \<Rightarrow> looked_up co c1 \<and>
                   originalCell c1 = Some (CellRef ''Sheet1'' (encode_cell demo_env 1 1))
      | None \<Rightarrow> unstyled_default c1)"
    by blast
  from c1(2) have b2: "unstyled_default c1"
    unfolding w demo_addresses cB2 by simp
  note f = demo_A2_looked_up[OF a2(1)]
  show ?thesis
    using sh len r1(1) l1 c0(1) a2 f(8,1,2,3,5,7) c1(1) b2 by blast
qed

section \<open>Loading and the size of the grid\<close>

lemma map_sheetData_names:
  "map_sheetData env worksheets ns = Inr shs \<Longrightarrow> map name shs = ns"
proof (induction ns arbitrary: worksheets shs)
  case Nil
  then show ?case by simp
next
  case (Cons n ns)
  from Cons.prems obtain sh worksheets' shs' where
    a: "sheetData env worksheets n = Inr (sh, worksheets')"
    and b: "map_sheetData env worksheets' ns = Inr shs'" and c: "shs = sh # shs'"
    by (auto split: sum.splits)
  from sheetData_Inr[OF a] have "name sh = n" by blast
  then show ?case using Cons.IH[OF b] c by simp
qed


lemma map_sheetData_distinct:
  assumes "distinct ns"
    and "\<And>n. n \<in> set ns \<Longrightarrow> \<exists>ws p. worksheets n = Some ws \<and> sheet_to_json env ws = Inr p"
  shows "\<exists>shs. map_sheetData env worksheets ns = Inr shs \<and> length shs = length ns \<and>
           (\<forall>i<length ns. \<exists>ws. worksheets (ns ! i) = Some ws \<and>
              name (shs ! i) = ns ! i \<and> data (shs ! i) = cellMatrix env (ns ! i) ws)"
  using assms
proof (induction ns arbitrary: worksheets)
  case Nil
  then show ?case by simp
next
  case (Cons n ns)
  from Cons.prems(2)[of n] obtain ws rows texts where
    ws: "worksheets n = Some ws" and j: "sheet_to_json env ws = Inr (rows, texts)"
    by fastforce
  let ?sh = "\<lparr>name = n, data = cellMatrix env n ws, rawData = rows\<rparr>"
  let ?w' = "worksheets(n \<mapsto> written texts ws)"
  have a: "sheetData env worksheets n = Inr (?sh, ?w')"
    by (simp add: sheetData_def ws j)
  have same: "?w' m = worksheets m" if "m \<in> set ns" for m
    using that Cons.prems(1) by auto
  have pre: "\<exists>ws p. ?w' m = Some ws \<and> sheet_to_json env ws = Inr p" if "m \<in> set ns" for m
  proof -
    have "m \<in> set (n # ns)" using that by simp
    from Cons.prems(2)[OF this] show ?thesis unfolding same[OF that] .
  qed
  have d: "distinct ns" using Cons.prems(1) by simp
  have "\<exists>shs. map_sheetData env ?w' ns = Inr shs \<and> length shs = length ns \<and>
           (\<forall>i<length ns. \<exists>ws. ?w' (ns ! i) = Some ws \<and>
              name (shs ! i) = ns ! i \<and> data (shs ! i) = cellMatrix env (ns ! i) ws)"
    by (rule Cons.IH[OF d]) (rule pre)
  then obtain shs where
    b: "map_sheetData env ?w' ns = Inr shs" and l: "length shs = length ns"
    and e: "\<forall>i<length ns. \<exists>ws. ?w' (ns ! i) = Some ws \<and>
              name (shs ! i) = ns ! i \<and> data (shs ! i) = cellMatrix env (ns ! i) ws"
    by (elim exE conjE)
  have m: "map_sheetData env worksheets (n # ns) = Inr (?sh # shs)"
    by (simp add: a b)
  have "\<exists>ws'. worksheets ((n # ns) ! i) = Some ws' \<and>
              name ((?sh # shs) ! i) = (n # ns) ! i \<and>
              data ((?sh # shs) ! i) = cellMatrix env ((n # ns) ! i) ws'"
    if "i < length (n # ns)" for i
  proof (cases i)
    case 0
    then show ?thesis using ws by simp
  next
    case (Suc k)
    then have k: "k < length ns" using that by simp
    then have "ns ! k \<in> set ns" by simp
    then have w: "?w' (ns ! k) = worksheets (ns ! k)" by (rule same)
    from e k obtain ws' where "?w' (ns ! k) = Some ws'" "name (shs ! k) = ns ! k"
      "data (shs ! k) = cellMatrix env (ns ! k) ws'" by blast
    then show ?thesis unfolding w using Suc by simp
  qed
  then show ?case using m l by auto
qed

lemma loadExcelFile_success:
  "try_block env file = Inr sd \<Longrightarrow>
   loadExcelFile env file st =
     st\<lparr>sheets := sd, activeSheetIndex := 0, isLoading := False, error := None\<rparr>"
  by (simp add: loadExcelFile_def loadExcelFile_end_def loadExcelFile_begin_def)


lemma Math_max_dense:
  "(\<And>x. x \<in> set xs \<Longrightarrow> x = Some k) \<Longrightarrow>
   Math_max m xs = Some (if xs = [] then m else max m k)"
proof (induction xs arbitrary: m)
  case Nil
  then show ?case by simp
next
  case (Cons a xs)
  have a: "a = Some k" using Cons.prems by simp
  have "Math_max m (a # xs) = Math_max (max m k) xs" by (simp add: a)
  also have "\<dots> = Some (if xs = [] then max m k else max (max m k) k)"
    using Cons.IH[of "max m k"] Cons.prems by simp
  finally show ?case by (simp add: max.assoc)
qed

lemma render_grid:
  assumes "\<not> isLoading st" "error st = None" "activeSheetIndex st < length (sheets st)"
    and "maxCols env (sheets st ! activeSheetIndex st) = Inr n"
  shows "shown_rows (render env st) = maxRows (sheets st ! activeSheetIndex st)"
    and "shown_cols (render env st) = length (array_from_length n)"
  using assms by (auto simp: render_def Let_def array_from_length_def)

lemma render_RangeError:
  assumes "\<not> isLoading st" "error st = None" "activeSheetIndex st < length (sheets st)"
    and "max_arguments env < Suc (length (data (sheets st ! activeSheetIndex st)))"
  shows "render env st = Inl RangeError"
  using assms by (auto simp: render_def Let_def maxCols_def)

lemma maxCols_cellMatrix:
  assumes "data sh = cellMatrix env sn ws" "0 \<le> e_r (declared_range env ws)"
    and "length (data sh) < max_arguments env"
  shows "maxCols env sh = Inr (Some (max (nat (e_c (declared_range env ws) + 1)) 10))"
proof -
  let ?cols = "nat (e_c (declared_range env ws) + 1)"
  let ?xs = "map (map_option length) (data sh)"
  have ne: "?xs \<noteq> []" using assms(1,2) by (simp add: cellMatrix_eq sheet_range_declared)
  have all: "\<And>x. x \<in> set ?xs \<Longrightarrow> x = Some ?cols"
    using assms(1) by (auto simp: cellMatrix_eq sheet_range_declared)
  have "Math_max 10 ?xs = Some (if ?xs = [] then 10 else max 10 ?cols)"
    by (rule Math_max_dense) (rule all)
  then show ?thesis using ne assms(3)
    by (simp add: maxCols_def max.commute)
qed

lemma well_formed_sheet:
  assumes "well_formed env wb" "n \<in> set (SheetNames wb)"
  shows "\<exists>ws p. Sheets wb n = Some ws \<and> 0 \<le> e_r (declared_range env ws) \<and>
          0 \<le> e_c (declared_range env ws) \<and> sheet_to_json env ws = Inr p"
proof -
  from assms have c: "(case Sheets wb n of
          None \<Rightarrow> False
        | Some ws \<Rightarrow>
            0 \<le> e_r (declared_range env ws) \<and> 0 \<le> e_c (declared_range env ws) \<and>
            (case sheet_to_json env ws of Inl err \<Rightarrow> False | Inr rows \<Rightarrow> True))"
    by (simp add: well_formed_def list_all_iff)
  then obtain ws where ws: "Sheets wb n = Some ws" by (cases "Sheets wb n") simp_all
  with c have r: "0 \<le> e_r (declared_range env ws)" "0 \<le> e_c (declared_range env ws)"
    and j: "(case sheet_to_json env ws of Inl err \<Rightarrow> False | Inr rows \<Rightarrow> True)"
    by simp_all
  from j obtain p where "sheet_to_json env ws = Inr p" by (cases "sheet_to_json env ws") simp_all
  then show ?thesis using ws r by blast
qed

lemma well_formed_distinct: "well_formed env wb \<Longrightarrow> distinct (SheetNames wb)"
  by (simp add: well_formed_def)

lemma declared_range_cases:
  "ws_ref ws = Some ref \<Longrightarrow> ref \<noteq> [] \<Longrightarrow> declared_range env ws = decode_range env ref"
  "ws_ref ws = None \<or> ws_ref ws = Some [] \<Longrightarrow> declared_range env ws = decode_range env ''A1:A1''"
  by (auto simp: declared_range_def)

text \<open>
  Claim C4, as the code has it. With a library that decodes \<open>A1:A1\<close> to the single cell at
  the origin, loading a well-formed workbook gives one sheet entry per sheet name, in the
  order of the names. The cell matrix of each sheet has exactly \<open>range.e.r + 1\<close> rows of
  exactly \<open>range.e.c + 1\<close> columns, the range being the decoded reference that the
  worksheet declares, and one row of one column when it declares none. With that sheet
  active, and its row count below the number of arguments the engine can spread, the
  rendered grid has the larger of the row count and 20 rows, and the larger of the column
  count and 10 columns.
\<close>

theorem C4_load_dimensions:
  assumes "arrayBuffer env file = Inr buf" and "XLSX_read env buf = Inr wb"
    and "well_formed env wb"
    and "decode_range env ''A1:A1'' = \<lparr>s_r = 0, s_c = 0, e_r = 0, e_c = 0\<rparr>"
  shows "\<exists>sd. loadExcelFile env file st =
             st\<lparr>sheets := sd, activeSheetIndex := 0, isLoading := False, error := None\<rparr> \<and>
          map name sd = SheetNames wb \<and>
          (\<forall>i<length sd. \<exists>ws rows cols.
             Sheets wb (SheetNames wb ! i) = Some ws \<and>
             (\<forall>ref. ws_ref ws = Some ref \<and> ref \<noteq> [] \<longrightarrow>
                int rows = e_r (decode_range env ref) + 1 \<and>
                int cols = e_c (decode_range env ref) + 1) \<and>
             (ws_ref ws = None \<or> ws_ref ws = Some [] \<longrightarrow> rows = 1 \<and> cols = 1) \<and>
             length (data (sd ! i)) = rows \<and>
             (\<forall>r<rows. \<exists>row. data (sd ! i) ! r = Some row \<and> length row = cols) \<and>
             (rows < max_arguments env \<longrightarrow>
                shown_rows (render env (st\<lparr>sheets := sd, activeSheetIndex := i,
                                              isLoading := False, error := None\<rparr>))
                  = max rows 20 \<and>
                shown_cols (render env (st\<lparr>sheets := sd, activeSheetIndex := i,
                                              isLoading := False, error := None\<rparr>))
                  = max cols 10))"
proof -
  have pre: "\<And>n. n \<in> set (SheetNames wb)
          \<Longrightarrow> \<exists>ws p. Sheets wb n = Some ws \<and> sheet_to_json env ws = Inr p"
    using well_formed_sheet[OF assms(3)] by blast
  have "\<exists>shs. map_sheetData env (Sheets wb) (SheetNames wb) = Inr shs \<and>
           length shs = length (SheetNames wb) \<and>
           (\<forall>i<length (SheetNames wb). \<exists>ws. Sheets wb (SheetNames wb ! i) = Some ws \<and>
              name (shs ! i) = SheetNames wb ! i \<and>
              data (shs ! i) = cellMatrix env (SheetNames wb ! i) ws)"
    by (rule map_sheetData_distinct[OF well_formed_distinct[OF assms(3)]]) (rule pre)
  then obtain sd where sd: "map_sheetData env (Sheets wb) (SheetNames wb) = Inr sd"
    and len: "length sd = length (SheetNames wb)"
    and each: "\<forall>i<length (SheetNames wb). \<exists>ws. Sheets wb (SheetNames wb ! i) = Some ws \<and>
              name (sd ! i) = SheetNames wb ! i \<and>
              data (sd ! i) = cellMatrix env (SheetNames wb ! i) ws"
    by (elim exE conjE)
  have tb: "try_block env file = Inr sd" using sd assms(1,2) by (simp add: try_block_def)
  have names: "map name sd = SheetNames wb" using sd by (rule map_sheetData_names)
  have sheet: "\<exists>ws rows cols.
             Sheets wb (SheetNames wb ! i) = Some ws \<and>
             (\<forall>ref. ws_ref ws = Some ref \<and> ref \<noteq> [] \<longrightarrow>
                int rows = e_r (decode_range env ref) + 1 \<and>
                int cols = e_c (decode_range env ref) + 1) \<and>
             (ws_ref ws = None \<or> ws_ref ws = Some [] \<longrightarrow> rows = 1 \<and> cols = 1) \<and>
             length (data (sd ! i)) = rows \<and>
             (\<forall>r<rows. \<exists>row. data (sd ! i) ! r = Some row \<and> length row = cols) \<and>
             (rows < max_arguments env \<longrightarrow>
                shown_rows (render env (st\<lparr>sheets := sd, activeSheetIndex := i,
                                              isLoading := False, error := None\<rparr>))
                  = max rows 20 \<and>
                shown_cols (render env (st\<lparr>sheets := sd, activeSheetIndex := i,
                                              isLoading := False, error := None\<rparr>))
                  = max cols 10)" if "i < length sd" for i
  proof -
    have i: "i < length (SheetNames wb)" using that len by simp
    with each obtain ws where
      ws: "Sheets wb (SheetNames wb ! i) = Some ws"
      and d: "data (sd ! i) = cellMatrix env (SheetNames wb ! i) ws"
      by blast
    from well_formed_sheet[OF assms(3), of "SheetNames wb ! i"] i ws
    have nn: "0 \<le> e_r (declared_range env ws)" "0 \<le> e_c (declared_range env ws)" by auto
    let ?rows = "nat (e_r (declared_range env ws) + 1)"
    let ?cols = "nat (e_c (declared_range env ws) + 1)"
    let ?st = "st\<lparr>sheets := sd, activeSheetIndex := i, isLoading := False, error := None\<rparr>"
    have decl: "\<forall>ref. ws_ref ws = Some ref \<and> ref \<noteq> [] \<longrightarrow>
                int ?rows = e_r (decode_range env ref) + 1 \<and>
                int ?cols = e_c (decode_range env ref) + 1"
    proof (intro allI impI)
      fix ref assume "ws_ref ws = Some ref \<and> ref \<noteq> []"
      then have "declared_range env ws = decode_range env ref"
        by (simp add: declared_range_def)
      then show "int ?rows = e_r (decode_range env ref) + 1 \<and>
                int ?cols = e_c (decode_range env ref) + 1"
        using nn by simp
    qed
    have dflt: "ws_ref ws = None \<or> ws_ref ws = Some [] \<longrightarrow> ?rows = 1 \<and> ?cols = 1"
      using declared_range_cases(2)[of ws env] assms(4) by auto
    have rows: "length (data (sd ! i)) = ?rows"
      by (simp add: d cellMatrix_eq sheet_range_declared)
    have cols: "\<forall>r<?rows. \<exists>row. data (sd ! i) ! r = Some row \<and> length row = ?cols"
      by (simp add: d cellMatrix_eq sheet_range_declared)
    have grid: "shown_rows (render env ?st) = max ?rows 20 \<and>
                shown_cols (render env ?st) = max ?cols 10" if lim: "?rows < max_arguments env"
    proof -
      have m: "maxCols env (sheets ?st ! activeSheetIndex ?st) = Inr (Some (max ?cols 10))"
        using maxCols_cellMatrix[OF d nn(1)] lim rows by simp
      have c: "\<not> isLoading ?st" "error ?st = None" "activeSheetIndex ?st < length (sheets ?st)"
        using \<open>i < length sd\<close> by simp_all
      show ?thesis
        using render_grid[OF c m] rows by (simp add: maxRows_def array_from_length_def)
    qed
    show ?thesis using ws decl dflt rows cols grid by blast
  qed
  show ?thesis using loadExcelFile_success[OF tb] names sheet by blast
qed

text \<open>The example workbook loads into a 2x2 sheet and a sheet without range.\<close>

lemma demo_book:
  "arrayBuffer demo_env ''book.xlsx'' = Inr ''book.xlsx''"
  "XLSX_read demo_env ''book.xlsx'' = Inr demo_workbook"
  by (simp_all add: demo_env_def)

lemma demo_decode_A1:
  "decode_range demo_env ''A1:A1'' = \<lparr>s_r = 0, s_c = 0, e_r = 0, e_c = 0\<rparr>"
  by (simp add: demo_env_def)

lemma demo_max_arguments: "max_arguments demo_env = 65535"
  by (simp add: demo_env_def)

lemma demo_well_formed: "well_formed demo_env demo_workbook"
proof -
  from demo_json obtain t1 t2 where
    "sheet_to_json demo_env demo_Sheet1 = Inr ([], t1)"
    "sheet_to_json demo_env demo_Blank = Inr ([], t2)" by blast
  then show ?thesis by (simp add: well_formed_def demo_Sheets demo_ranges)
qed

lemma demo_loaded_fields:
  "activeSheetIndex demo_loaded = 0" "length (sheets demo_loaded) = 2"
  "\<not> isLoading demo_loaded" "error demo_loaded = None" "showFormulas demo_loaded = False"
  "name (sheets demo_loaded ! 0) = ''Sheet1''"
  "data (sheets demo_loaded ! 0) = cellMatrix demo_env ''Sheet1'' demo_Sheet1"
  "name (sheets demo_loaded ! 1) = ''Blank''"
  "data (sheets demo_loaded ! 1) = cellMatrix demo_env ''Blank'' demo_Blank"
proof -
  have pre: "\<And>n. n \<in> set (SheetNames demo_workbook)
          \<Longrightarrow> \<exists>ws p. Sheets demo_workbook n = Some ws \<and> sheet_to_json demo_env ws = Inr p"
    using well_formed_sheet[OF demo_well_formed] by blast
  have "\<exists>shs. map_sheetData demo_env (Sheets demo_workbook) (SheetNames demo_workbook) = Inr shs \<and>
           length shs = length (SheetNames demo_workbook) \<and>
           (\<forall>i<length (SheetNames demo_workbook).
              \<exists>ws. Sheets demo_workbook (SheetNames demo_workbook ! i) = Some ws \<and>
              name (shs ! i) = SheetNames demo_workbook ! i \<and>
              data (shs ! i) = cellMatrix demo_env (SheetNames demo_workbook ! i) ws)"
    by (rule map_sheetData_distinct[OF well_formed_distinct[OF demo_well_formed]]) (rule pre)
  then obtain sd where
    sd: "map_sheetData demo_env (Sheets demo_workbook) (SheetNames demo_workbook) = Inr sd"
    and len: "length sd = length (SheetNames demo_workbook)"
    and each: "\<forall>i<length (SheetNames demo_workbook).
              \<exists>ws. Sheets demo_workbook (SheetNames demo_workbook ! i) = Some ws \<and>
              name (sd ! i) = SheetNames demo_workbook ! i \<and>
              data (sd ! i) = cellMatrix demo_env (SheetNames demo_workbook ! i) ws"
    by (elim exE conjE)
  have tb: "try_block demo_env ''book.xlsx'' = Inr sd"
    using sd by (simp add: try_block_def demo_book)
  have st: "demo_loaded = initial_state\<lparr>sheets := sd, activeSheetIndex := 0, isLoading := False,
                                        error := None\<rparr>"
    unfolding demo_loaded_def by (rule loadExcelFile_success[OF tb])
  have l2: "length sd = 2" using len by (simp add: demo_Sheets)
  have "(0::nat) < length (SheetNames demo_workbook)" by (simp add: demo_Sheets)
  with each obtain ws0 where
    "Sheets demo_workbook (SheetNames demo_workbook ! 0) = Some ws0"
    "name (sd ! 0) = SheetNames demo_workbook ! 0"
    "data (sd ! 0) = cellMatrix demo_env (SheetNames demo_workbook ! 0) ws0" by blast
  then have s0: "name (sd ! 0) = ''Sheet1''" "data (sd ! 0) = cellMatrix demo_env ''Sheet1'' demo_Sheet1"
    by (simp_all add: demo_Sheets)
  have "(1::nat) < length (SheetNames demo_workbook)" by (simp add: demo_Sheets)
  with each obtain ws1 where
    "Sheets demo_workbook (SheetNames demo_workbook ! 1) = Some ws1"
    "name (sd ! 1) = SheetNames demo_workbook ! 1"
    "data (sd ! 1) = cellMatrix demo_env (SheetNames demo_workbook ! 1) ws1" by blast
  then have s1: "name (sd ! 1) = ''Blank''" "data (sd ! 1) = cellMatrix demo_env ''Blank'' demo_Blank"
    by (simp_all add: demo_Sheets)
  show "activeSheetIndex demo_loaded = 0" "length (sheets demo_loaded) = 2"
    "\<not> isLoading demo_loaded" "error demo_loaded = None" "showFormulas demo_loaded = False"
    by (simp_all add: st l2 initial_state_def)
  show "name (sheets demo_loaded ! 0) = ''Sheet1''"
    "data (sheets demo_loaded ! 0) = cellMatrix demo_env ''Sheet1'' demo_Sheet1"
    using s0 by (simp_all add: st)
  show "name (sheets demo_loaded ! 1) = ''Blank''"
    "data (sheets demo_loaded ! 1) = cellMatrix demo_env ''Blank'' demo_Blank"
    using s1 unfolding st by simp_all
qed

lemma demo_loaded_shape:
  "length (data (sheets demo_loaded ! 0)) = 2"
  by (simp add: demo_loaded_fields cellMatrix_eq sheet_range_declared demo_ranges)

lemma demo_loaded_render:
  "shown_rows (render demo_env demo_loaded) = 20"
  "shown_cols (render demo_env demo_loaded) = 10"
proof -
  have a: "activeSheetIndex demo_loaded < length (sheets demo_loaded)"
    by (simp add: demo_loaded_fields)
  have d: "data (sheets demo_loaded ! activeSheetIndex demo_loaded)
             = cellMatrix demo_env ''Sheet1'' demo_Sheet1"
    by (simp add: demo_loaded_fields)
  have l: "length (data (sheets demo_loaded ! activeSheetIndex demo_loaded)) = 2"
    unfolding demo_loaded_fields(1) by (rule demo_loaded_shape)
  have m: "maxCols demo_env (sheets demo_loaded ! activeSheetIndex demo_loaded) = Inr (Some 10)"
    using maxCols_cellMatrix[OF d] l by (simp add: demo_ranges demo_max_arguments)
  note r = render_grid[OF demo_loaded_fields(3,4) a m]
  show "shown_rows (render demo_env demo_loaded) = 20"
    using r(1) l by (simp add: maxRows_def)
  show "shown_cols (render demo_env demo_loaded) = 10"
    using r(2) by (simp add: array_from_length_def)
qed

text \<open>
  Claim C4 as stated fails: the first sheet of the example workbook declares the range
  \<open>A1:B2\<close>, its matrix has 2 rows and 2 columns, and the grid rendered for it has 20 rows
  and 10 columns.
\<close>

theorem C4_counterexample:
  "arrayBuffer demo_env ''book.xlsx'' = Inr ''book.xlsx'' \<and>
   XLSX_read demo_env ''book.xlsx'' = Inr demo_workbook \<and>
   well_formed demo_env demo_workbook \<and>
   demo_loaded = loadExcelFile demo_env ''book.xlsx'' initial_state \<and>
   ws_ref demo_Sheet1 = Some ''A1:B2'' \<and>
   e_r (decode_range demo_env ''A1:B2'') + 1 = 2 \<and>
   e_c (decode_range demo_env ''A1:B2'') + 1 = 2 \<and>
   name (sheets demo_loaded ! activeSheetIndex demo_loaded) = ''Sheet1'' \<and>
   length (data (sheets demo_loaded ! activeSheetIndex demo_loaded)) = 2 \<and>
   shown_rows (render demo_env demo_loaded) = 20 \<and>
   shown_cols (render demo_env demo_loaded) = 10"
proof -
  have r: "ws_ref demo_Sheet1 = Some ''A1:B2''"
    "e_r (decode_range demo_env ''A1:B2'') + 1 = 2" "e_c (decode_range demo_env ''A1:B2'') + 1 = 2"
    by (simp_all add: demo_Sheet1_def demo_env_def)
  have n: "name (sheets demo_loaded ! activeSheetIndex demo_loaded) = ''Sheet1''"
    "length (data (sheets demo_loaded ! activeSheetIndex demo_loaded)) = 2"
    unfolding demo_loaded_fields(1) by (rule demo_loaded_fields(6), rule demo_loaded_shape)
  show ?thesis
    using demo_book demo_well_formed r n demo_loaded_render
    by (simp add: demo_loaded_def)
qed

text \<open>
  The amended claim on the example workbook: its first sheet declares \<open>A1:B2\<close> and is 2x2,
  its second sheet declares nothing and is 1x1, and with the second sheet active the grid
  has 20 rows and 10 columns.
\<close>

theorem C4_load_dimensions_witness:
  "arrayBuffer demo_env ''book.xlsx'' = Inr ''book.xlsx'' \<and>
   XLSX_read demo_env ''book.xlsx'' = Inr demo_workbook \<and>
   well_formed demo_env demo_workbook \<and>
   decode_range demo_env ''A1:A1'' = \<lparr>s_r = 0, s_c = 0, e_r = 0, e_c = 0\<rparr> \<and>
   map name (sheets demo_loaded) = [''Sheet1'', ''Blank''] \<and>
   ws_ref demo_Blank = None \<and>
   length (data (sheets demo_loaded ! 1)) = 1 \<and>
   (1::nat) < max_arguments demo_env \<and>
   shown_rows (render demo_env (demo_loaded\<lparr>activeSheetIndex := 1\<rparr>)) = 20 \<and>
   shown_cols (render demo_env (demo_loaded\<lparr>activeSheetIndex := 1\<rparr>)) = 10"
proof -
  from C4_load_dimensions[OF demo_book demo_well_formed demo_decode_A1, of initial_state]
  obtain sd where
    ld: "loadExcelFile demo_env ''book.xlsx'' initial_state =
           initial_state\<lparr>sheets := sd, activeSheetIndex := 0, isLoading := False, error := None\<rparr>"
    and names: "map name sd = SheetNames demo_workbook"
    and each: "\<forall>i<length sd. \<exists>ws rows cols.
             Sheets demo_workbook (SheetNames demo_workbook ! i) = Some ws \<and>
             (\<forall>ref. ws_ref ws = Some ref \<and> ref \<noteq> [] \<longrightarrow>
                int rows = e_r (decode_range demo_env ref) + 1 \<and>
                int cols = e_c (decode_range demo_env ref) + 1) \<and>
             (ws_ref ws = None \<or> ws_ref ws = Some [] \<longrightarrow> rows = 1 \<and> cols = 1) \<and>
             length (data (sd ! i)) = rows \<and>
             (\<forall>r<rows. \<exists>row. data (sd ! i) ! r = Some row \<and> length row = cols) \<and>
             (rows < max_arguments demo_env \<longrightarrow>
                shown_rows (render demo_env (initial_state\<lparr>sheets := sd, activeSheetIndex := i,
                                              isLoading := False, error := None\<rparr>))
                  = max rows 20 \<and>
                shown_cols (render demo_env (initial_state\<lparr>sheets := sd, activeSheetIndex := i,
                                              isLoading := False, error := None\<rparr>))
                  = max cols 10)"
    by (elim exE conjE)
  have sd: "sheets demo_loaded = sd" by (simp add: demo_loaded_def ld)
  have "length (map name sd) = 2" unfolding names by (simp add: demo_Sheets)
  then have len: "length sd = 2" by simp
  have st1: "demo_loaded\<lparr>activeSheetIndex := 1\<rparr> =
      initial_state\<lparr>sheets := sd, activeSheetIndex := 1, isLoading := False, error := None\<rparr>"
    by (simp add: demo_loaded_def ld)
  have "(1::nat) < length sd" using len by simp
  with each obtain ws rows cols where
    ws: "Sheets demo_workbook (SheetNames demo_workbook ! 1) = Some ws"
    and dflt: "ws_ref ws = None \<or> ws_ref ws = Some [] \<longrightarrow> rows = 1 \<and> cols = 1"
    and l: "length (data (sd ! 1)) = rows"
    and g: "rows < max_arguments demo_env \<longrightarrow>
                shown_rows (render demo_env (initial_state\<lparr>sheets := sd, activeSheetIndex := 1,
                                              isLoading := False, error := None\<rparr>))
                  = max rows 20 \<and>
                shown_cols (render demo_env (initial_state\<lparr>sheets := sd, activeSheetIndex := 1,
                                              isLoading := False, error := None\<rparr>))
                  = max cols 10"
    by blast
  have w: "ws = demo_Blank" using ws by (simp add: demo_Sheets)
  have b: "ws_ref demo_Blank = None" by (simp add: demo_Blank_def)
  from dflt b have rc: "rows = 1" "cols = 1" unfolding w by simp_all
  have lim: "(1::nat) < max_arguments demo_env" by (simp add: demo_max_arguments)
  from g lim have "shown_rows (render demo_env (demo_loaded\<lparr>activeSheetIndex := 1\<rparr>)) = max 1 20 \<and>
                shown_cols (render demo_env (demo_loaded\<lparr>activeSheetIndex := 1\<rparr>)) = max 1 10"
    unfolding rc st1 by simp
  then have r: "shown_rows (render demo_env (demo_loaded\<lparr>activeSheetIndex := 1\<rparr>)) = 20"
    "shown_cols (render demo_env (demo_loaded\<lparr>activeSheetIndex := 1\<rparr>)) = 10"
    by simp_all
  have l1: "length (data (sheets demo_loaded ! 1)) = 1" using l unfolding sd rc .
  have nm: "map name (sheets demo_loaded) = [''Sheet1'', ''Blank'']"
    unfolding sd names by (simp add: demo_Sheets)
  show ?thesis using demo_book demo_well_formed demo_decode_A1 nm b l1 lim r by simp
qed

section \<open>Errors of a load\<close>






section \<open>Arrays with holes and the edit of a cell\<close>

lemma js_get_js_set: "js_get (js_set xs i x) j = (if j = i then Some x else js_get xs j)"
  by (auto simp: js_get_def js_set_def nth_append)

lemma length_js_set: "length (js_set xs i x) = max (length xs) (Suc i)"
  by (auto simp: js_set_def)

lemma handleCellChange_Inr:
  assumes "activeSheetIndex st < length (sheets st)"
  shows "handleCellChange r c v st =
     Inr (st\<lparr>sheets := (sheets st)[activeSheetIndex st :=
            (sheets st ! activeSheetIndex st)\<lparr>data :=
               js_set (data (sheets st ! activeSheetIndex st)) r
                 (js_set (case js_get (data (sheets st ! activeSheetIndex st)) r of
                            None \<Rightarrow> [] | Some row \<Rightarrow> row) c
                    (case grid_cell (sheets st ! activeSheetIndex st) r c of
                       Some existingCell \<Rightarrow> existingCell\<lparr>value := JStr v\<rparr>
                     | None \<Rightarrow> defaultCell (JStr v)))\<rparr>]\<rparr>)"
  using assms
  by (auto simp: handleCellChange_def Let_def grid_cell_def js_get_def split: option.splits)

lemma handleCellChange_frame:
  assumes "handleCellChange r c v st = Inr st'"
  shows "activeSheetIndex st < length (sheets st)"
    and "length (sheets st') = length (sheets st)"
    and "activeSheetIndex st' = activeSheetIndex st"
    and "isLoading st' = isLoading st" and "error st' = error st"
    and "showFormulas st' = showFormulas st"
    and "i \<noteq> activeSheetIndex st \<Longrightarrow> sheets st' ! i = sheets st ! i"
    and "name (sheets st' ! activeSheetIndex st) = name (sheets st ! activeSheetIndex st)"
    and "rawData (sheets st' ! activeSheetIndex st) = rawData (sheets st ! activeSheetIndex st)"
proof -
  show a: "activeSheetIndex st < length (sheets st)"
    using assms by (auto simp: handleCellChange_def split: if_splits)
  from handleCellChange_Inr[OF a, of r c v] assms
  have st': "st' = st\<lparr>sheets := (sheets st)[activeSheetIndex st :=
            (sheets st ! activeSheetIndex st)\<lparr>data :=
               js_set (data (sheets st ! activeSheetIndex st)) r
                 (js_set (case js_get (data (sheets st ! activeSheetIndex st)) r of
                            None \<Rightarrow> [] | Some row \<Rightarrow> row) c
                    (case grid_cell (sheets st ! activeSheetIndex st) r c of
                       Some existingCell \<Rightarrow> existingCell\<lparr>value := JStr v\<rparr>
                     | None \<Rightarrow> defaultCell (JStr v)))\<rparr>]\<rparr>"
    by simp
  show "length (sheets st') = length (sheets st)" "activeSheetIndex st' = activeSheetIndex st"
    "isLoading st' = isLoading st" "error st' = error st" "showFormulas st' = showFormulas st"
    by (simp_all add: st')
  show "i \<noteq> activeSheetIndex st \<Longrightarrow> sheets st' ! i = sheets st ! i"
    by (simp add: st')
  show "name (sheets st' ! activeSheetIndex st) = name (sheets st ! activeSheetIndex st)"
    "rawData (sheets st' ! activeSheetIndex st) = rawData (sheets st ! activeSheetIndex st)"
    using a by (simp_all add: st')
qed

lemma handleCellChange_data:
  assumes "handleCellChange r c v st = Inr st'"
  shows "data (sheets st' ! activeSheetIndex st) =
           js_set (data (sheets st ! activeSheetIndex st)) r
             (js_set (case js_get (data (sheets st ! activeSheetIndex st)) r of
                        None \<Rightarrow> [] | Some row \<Rightarrow> row) c
                (case grid_cell (sheets st ! activeSheetIndex st) r c of
                   Some existingCell \<Rightarrow> existingCell\<lparr>value := JStr v\<rparr>
                 | None \<Rightarrow> defaultCell (JStr v)))"
proof -
  have a: "activeSheetIndex st < length (sheets st)"
    using assms by (rule handleCellChange_frame(1))
  from handleCellChange_Inr[OF a, of r c v] assms show ?thesis using a by auto
qed

lemma grid_cell_row:
  "js_get (case js_get (data sh) r of None \<Rightarrow> [] | Some row \<Rightarrow> row) c = grid_cell sh r c"
  by (cases "js_get (data sh) r") (simp_all add: grid_cell_def js_get_def)

lemma grid_cell_js_set:
  assumes "data sh' = js_set (data sh) r (js_set (case js_get (data sh) r of None \<Rightarrow> [] | Some row \<Rightarrow> row) c x)"
  shows "grid_cell sh' r' c' = (if r' = r \<and> c' = c then Some x else grid_cell sh r' c')"
proof (cases "r' = r")
  case True
  have "grid_cell sh' r' c' = js_get (js_set (case js_get (data sh) r of None \<Rightarrow> [] | Some row \<Rightarrow> row) c x) c'"
    by (simp add: grid_cell_def assms js_get_js_set True)
  also have "\<dots> = (if c' = c then Some x else grid_cell sh r c')"
    by (simp only: js_get_js_set grid_cell_row)
  finally show ?thesis using True by simp
next
  case False
  then show ?thesis by (simp add: grid_cell_def assms js_get_js_set)
qed

lemma handleCellChange_grid_cell:
  assumes "handleCellChange r c v st = Inr st'"
  shows "grid_cell (sheets st' ! activeSheetIndex st) r' c' =
           (if r' = r \<and> c' = c
            then Some (case grid_cell (sheets st ! activeSheetIndex st) r c of
                         Some existingCell \<Rightarrow> existingCell\<lparr>value := JStr v\<rparr>
                       | None \<Rightarrow> defaultCell (JStr v))
            else grid_cell (sheets st ! activeSheetIndex st) r' c')"
  by (rule grid_cell_js_set) (rule handleCellChange_data[OF assms])




lemma grid_cell_Some_iff:
  "grid_cell sh r c = Some x \<longleftrightarrow> (\<exists>row. js_get (data sh) r = Some row \<and> js_get row c = Some x)"
  by (cases "js_get (data sh) r") (simp_all add: grid_cell_def)


section \<open>Displayed text\<close>












lemma grid_cell_cellMatrix:
  assumes "data sh = cellMatrix env sn ws"
    and "int r \<le> e_r (declared_range env ws)" and "int c \<le> e_c (declared_range env ws)"
  shows "grid_cell sh r c = Some (cellAt env sn ws r c)"
proof -
  have "r < nat (e_r (declared_range env ws) + 1)" "c < nat (e_c (declared_range env ws) + 1)"
    using assms(2,3) by linarith+
  then show ?thesis
    by (simp add: grid_cell_def js_get_def assms(1) cellMatrix_eq sheet_range_declared)
qed

lemma demo_reachable: "reachable demo_env demo_loaded"
proof -
  have "step demo_env initial_state (loadExcelFile_begin initial_state)"
    by (rule step.load_begin)
  moreover have "step demo_env (loadExcelFile_begin initial_state)
      (loadExcelFile_end demo_env ''book.xlsx'' (loadExcelFile_begin initial_state))"
    by (rule step.load_end)
  ultimately show ?thesis
    unfolding demo_loaded_def loadExcelFile_def
    using reachable_initial reachable_step by blast
qed

lemma demo_cells:
  "cellAt demo_env ''Sheet1'' demo_Sheet1 0 0 = extractCell demo_env (CellRef ''Sheet1'' ''A1'') demo_A1"
  "cellAt demo_env ''Sheet1'' demo_Sheet1 0 1 = extractCell demo_env (CellRef ''Sheet1'' ''B1'') demo_B1"
  "cellAt demo_env ''Sheet1'' demo_Sheet1 1 0 = extractCell demo_env (CellRef ''Sheet1'' ''A2'') demo_A2"
  "cellAt demo_env ''Sheet1'' demo_Sheet1 1 1 = defaultCell (JStr [])"
proof -
  note e = demo_addresses
  show "cellAt demo_env ''Sheet1'' demo_Sheet1 0 0 = extractCell demo_env (CellRef ''Sheet1'' ''A1'') demo_A1"
    "cellAt demo_env ''Sheet1'' demo_Sheet1 0 1 = extractCell demo_env (CellRef ''Sheet1'' ''B1'') demo_B1"
    "cellAt demo_env ''Sheet1'' demo_Sheet1 1 0 = extractCell demo_env (CellRef ''Sheet1'' ''A2'') demo_A2"
    "cellAt demo_env ''Sheet1'' demo_Sheet1 1 1 = defaultCell (JStr [])"
    unfolding cellAt_def Let_def e by (simp_all add: demo_Sheet1_def)
qed

lemma demo_grid_cells:
  "grid_cell (sheets demo_loaded ! 0) 0 0 = Some (extractCell demo_env (CellRef ''Sheet1'' ''A1'') demo_A1)"
  "grid_cell (sheets demo_loaded ! 0) 0 1 = Some (extractCell demo_env (CellRef ''Sheet1'' ''B1'') demo_B1)"
  "grid_cell (sheets demo_loaded ! 0) 1 0 = Some (extractCell demo_env (CellRef ''Sheet1'' ''A2'') demo_A2)"
  "grid_cell (sheets demo_loaded ! 0) 1 1 = Some (defaultCell (JStr []))"
proof -
  have d: "data (sheets demo_loaded ! 0) = cellMatrix demo_env ''Sheet1'' demo_Sheet1"
    by (rule demo_loaded_fields(7))
  have "grid_cell (sheets demo_loaded ! 0) 0 0 = Some (cellAt demo_env ''Sheet1'' demo_Sheet1 0 0)"
    "grid_cell (sheets demo_loaded ! 0) 0 1 = Some (cellAt demo_env ''Sheet1'' demo_Sheet1 0 1)"
    "grid_cell (sheets demo_loaded ! 0) 1 0 = Some (cellAt demo_env ''Sheet1'' demo_Sheet1 1 0)"
    "grid_cell (sheets demo_loaded ! 0) 1 1 = Some (cellAt demo_env ''Sheet1'' demo_Sheet1 1 1)"
    by (rule grid_cell_cellMatrix[OF d]; simp add: demo_ranges)+
  then show "grid_cell (sheets demo_loaded ! 0) 0 0 = Some (extractCell demo_env (CellRef ''Sheet1'' ''A1'') demo_A1)"
    "grid_cell (sheets demo_loaded ! 0) 0 1 = Some (extractCell demo_env (CellRef ''Sheet1'' ''B1'') demo_B1)"
    "grid_cell (sheets demo_loaded ! 0) 1 0 = Some (extractCell demo_env (CellRef ''Sheet1'' ''A2'') demo_A2)"
    "grid_cell (sheets demo_loaded ! 0) 1 1 = Some (defaultCell (JStr []))"
    unfolding demo_cells .
qed

lemma demo_B1_fields:
  "value (extractCell demo_env (CellRef ''Sheet1'' ''B1'') demo_B1) = JStr []"
  "formula (extractCell demo_env (CellRef ''Sheet1'' ''B1'') demo_B1) = Some ''A2-A2''"
  by (simp_all add: extractCell_fields demo_B1_def)



text \<open>
  Claim C8, as the code has it. A worksheet cell whose raw value is the number 0 or the
  boolean false and which has no formatted text is stored with the empty string as its
  value. At display time the same coercion applies to the stored value: a record whose
  value is falsy shows the empty string whenever its value is what is shown, that is with
  the formula toggle off or for a cell without formula; with the toggle on, a cell that has
  a formula shows \<open>=\<close> and the formula instead.
\<close>

theorem C8_falsy_values:
  "(cell_w co = None \<and> (cell_v co = JNum 0 \<or> cell_v co = JBool False) \<longrightarrow>
      value (extractCell env ref co) = JStr [] \<and>
      getCellDisplayValue False (Some (extractCell env ref co)) = [] \<and>
      (cell_f co = None \<longrightarrow> getCellDisplayValue True (Some (extractCell env ref co)) = [])) \<and>
   (\<not> truthy (value c) \<longrightarrow>
      getCellDisplayValue False (Some c) = [] \<and>
      getCellDisplayValue True (Some c) =
        (case formula c of Some x \<Rightarrow> if x \<noteq> [] then CHR ''='' # x else [] | None \<Rightarrow> []))"
proof -
  have a: "value (extractCell env ref co) = JStr []"
    if "cell_w co = None \<and> (cell_v co = JNum 0 \<or> cell_v co = JBool False)"
    using that by (auto simp: extractCell_fields)
  have f: "formula (extractCell env ref co) = None" if "cell_f co = None"
    using that by (simp add: extractCell_fields)
  have d: "getCellDisplayValue False (Some k) = [] \<and>
      getCellDisplayValue True (Some k) =
        (case formula k of Some x \<Rightarrow> if x \<noteq> [] then CHR ''='' # x else [] | None \<Rightarrow> [])"
    if "\<not> truthy (value k)" for k
    using that by (auto simp: getCellDisplayValue_def js_or_def split: option.splits)
  show ?thesis using a f d[of c] d[of "extractCell env ref co"] by auto
qed

text \<open>
  Claim C8 as stated fails with the formula toggle on: the cell B1 of the example has the
  raw value 0, no formatted text and the formula \<open>A2-A2\<close>; its stored value is the empty
  string, which is falsy, and it is displayed as \<open>=A2-A2\<close>.
\<close>

theorem C8_counterexample:
  "cell_w demo_B1 = None \<and> cell_v demo_B1 = JNum 0 \<and>
   value (extractCell demo_env (CellRef ''Sheet1'' ''B1'') demo_B1) = JStr [] \<and>
   truthy (value (extractCell demo_env (CellRef ''Sheet1'' ''B1'') demo_B1)) = False \<and>
   getCellDisplayValue True (Some (extractCell demo_env (CellRef ''Sheet1'' ''B1'') demo_B1)) = ''=A2-A2''"
  by (simp add: demo_B1_fields getCellDisplayValue_def) (simp add: demo_B1_def)

text \<open>The amended claim on the same cell, and on a record whose value is the number 0.\<close>

theorem C8_falsy_values_witness:
  "cell_w demo_B1 = None \<and> cell_v demo_B1 = JNum 0 \<and>
   value (extractCell demo_env (CellRef ''Sheet1'' ''B1'') demo_B1) = JStr [] \<and>
   getCellDisplayValue False (Some (extractCell demo_env (CellRef ''Sheet1'' ''B1'') demo_B1)) = [] \<and>
   truthy (value (defaultCell (JNum 0))) = False \<and>
   getCellDisplayValue False (Some (defaultCell (JNum 0))) = [] \<and>
   getCellDisplayValue True (Some (defaultCell (JNum 0))) = []"
proof -
  have p: "cell_w demo_B1 = None" "cell_v demo_B1 = JNum 0" by (simp_all add: demo_B1_def)
  from C8_falsy_values[of demo_B1 demo_env "CellRef ''Sheet1'' ''B1''" "defaultCell (JNum 0)"] p
  show ?thesis by (simp add: defaultCell_fields)
qed

section \<open>Editing over the rendered grid, and the active sheet\<close>

lemma render_GridView:
  assumes "render env st = Inr (GridView g)"
  shows "activeSheetIndex st < length (sheets st)"
    and "\<not> isLoading st"
    and "tabs g = (if length (sheets st) > 1 then [0..<length (sheets st)] else [])"
    and "length (inputs g) = maxRows (sheets st ! activeSheetIndex st)"
    and "\<exists>n. maxCols env (sheets st ! activeSheetIndex st) = Inr n \<and>
             length (headers g) = length (array_from_length n)"
proof -
  from assms have l: "\<not> isLoading st" by (auto simp: render_def split: if_splits)
  from assms l have e: "\<not> (error st \<noteq> None \<and> error st \<noteq> Some [])"
    by (auto simp: render_def split: if_splits)
  from assms l e have n: "length (sheets st) \<noteq> 0" by (auto simp: render_def split: if_splits)
  from assms l e n show a: "activeSheetIndex st < length (sheets st)"
    by (auto simp: render_def split: if_splits)
  show "\<not> isLoading st" by (rule l)
  let ?sh = "sheets st ! activeSheetIndex st"
  from assms l e n a obtain k where k: "maxCols env ?sh = Inr k"
    by (cases "maxCols env ?sh") (auto simp: render_def Let_def)
  from assms l e n a k have g: "g =
      \<lparr>tabs = (if length (sheets st) > 1 then [0..<length (sheets st)] else []),
       headers = map (\<lambda>colIndex. getColumnLabel (int colIndex)) (array_from_length k),
       inputs = map (\<lambda>rowIndex. map (\<lambda>colIndex.
                  getCellDisplayValue (showFormulas st) (grid_cell ?sh rowIndex colIndex))
                  (array_from_length k)) (array_from_length (Some (maxRows ?sh)))\<rparr>"
    by (auto simp: render_def Let_def)
  show "tabs g = (if length (sheets st) > 1 then [0..<length (sheets st)] else [])"
    by (simp add: g)
  show "length (inputs g) = maxRows ?sh" by (simp add: g array_from_length_def)
  show "\<exists>n. maxCols env ?sh = Inr n \<and> length (headers g) = length (array_from_length n)"
    using k by (simp add: g)
qed

lemma render_shows_grid:
  assumes "\<not> isLoading st" "error st = None" "activeSheetIndex st < length (sheets st)"
    and "length (data (sheets st ! activeSheetIndex st)) < max_arguments env"
  shows "\<exists>g. render env st = Inr (GridView g)"
  using assms by (auto simp: render_def Let_def maxCols_def)

lemma Math_max_Some:
  "Math_max m xs = Some k \<Longrightarrow> m \<le> k \<and> (\<forall>x. Some x \<in> set xs \<longrightarrow> x \<le> k)"
proof (induction m xs rule: Math_max.induct)
  case (1 m)
  then show ?case by simp
next
  case (2 m xs)
  then show ?case by simp
next
  case (3 m x xs)
  then have "max m x \<le> k \<and> (\<forall>y. Some y \<in> set xs \<longrightarrow> y \<le> k)" by simp
  then show ?case by auto
qed

lemma Math_max_no_hole: "None \<notin> set xs \<Longrightarrow> \<exists>k. Math_max m xs = Some k"
proof (induction m xs rule: Math_max.induct)
  case (1 m)
  then show ?case by simp
next
  case (2 m xs)
  then show ?case by simp
next
  case (3 m x xs)
  then show ?case by simp
qed

lemma maxCols_bounds:
  assumes "maxCols env sh = Inr n" "None \<notin> set (data sh)"
  shows "\<exists>k. n = Some k \<and> 10 \<le> k \<and> (\<forall>row. Some row \<in> set (data sh) \<longrightarrow> length row \<le> k)"
proof -
  have m: "n = Math_max 10 (map (map_option length) (data sh))"
    using assms(1) by (auto simp: maxCols_def split: if_splits)
  have "None \<notin> set (map (map_option length) (data sh))" using assms(2) by auto
  from Math_max_no_hole[OF this, of 10] obtain k where k: "n = Some k"
    unfolding m by blast
  from Math_max_Some[OF k[unfolded m]]
  have "10 \<le> k" and b: "\<forall>x. Some x \<in> set (map (map_option length) (data sh)) \<longrightarrow> x \<le> k"
    by blast+
  have "\<forall>row. Some row \<in> set (data sh) \<longrightarrow> length row \<le> k"
  proof (intro allI impI)
    fix row assume "Some row \<in> set (data sh)"
    then have "Some (length row) \<in> set (map (map_option length) (data sh))" by force
    then show "length row \<le> k" using b by blast
  qed
  then show ?thesis using k \<open>10 \<le> k\<close> by blast
qed

lemma Math_max_hole: "None \<in> set xs \<Longrightarrow> Math_max m xs = None"
  by (induction m xs rule: Math_max.induct) auto

lemma grid_cell_in_bounds:
  assumes "grid_cell sh r c = Some x"
  shows "\<exists>row. js_get (data sh) r = Some row \<and> r < length (data sh) \<and> data sh ! r = Some row \<and>
           c < length row \<and> row ! c = Some x"
  using assms unfolding grid_cell_Some_iff
  by (auto simp: js_get_def split: if_splits)

text \<open>
  Claim C2. Editing an in-bounds position that holds a cell record, in any state whose
  active index is a sheet: the edit succeeds; afterwards that cell has the new text as its
  value and every other field as before; the matrix of the active sheet is the old one with
  only that entry replaced, so every other cell, and the shape of the matrix, is unchanged;
  and every other sheet, like the rest of the state, is unchanged.
\<close>

theorem C2_handleCellChange_frame:
  assumes "activeSheetIndex st < length (sheets st)"
    and "grid_cell (sheets st ! activeSheetIndex st) rowIndex colIndex = Some cell"
  shows "\<exists>st' cell' row.
     handleCellChange rowIndex colIndex v st = Inr st' \<and>
     grid_cell (sheets st' ! activeSheetIndex st) rowIndex colIndex = Some cell' \<and>
     value cell' = JStr v \<and> formula cell' = formula cell \<and> type cell' = type cell \<and>
     style cell' = style cell \<and> backgroundColor cell' = backgroundColor cell \<and>
     textColor cell' = textColor cell \<and> isBold cell' = isBold cell \<and>
     isItalic cell' = isItalic cell \<and> fontSize cell' = fontSize cell \<and>
     fontFamily cell' = fontFamily cell \<and> alignment cell' = alignment cell \<and>
     border cell' = border cell \<and> originalCell cell' = originalCell cell \<and>
     debugInfo cell' = debugInfo cell \<and>
     (\<forall>r c. r \<noteq> rowIndex \<or> c \<noteq> colIndex \<longrightarrow>
        grid_cell (sheets st' ! activeSheetIndex st) r c
          = grid_cell (sheets st ! activeSheetIndex st) r c) \<and>
     data (sheets st ! activeSheetIndex st) ! rowIndex = Some row \<and>
     data (sheets st' ! activeSheetIndex st) =
       (data (sheets st ! activeSheetIndex st))[rowIndex := Some (row[colIndex := Some cell'])] \<and>
     name (sheets st' ! activeSheetIndex st) = name (sheets st ! activeSheetIndex st) \<and>
     rawData (sheets st' ! activeSheetIndex st) = rawData (sheets st ! activeSheetIndex st) \<and>
     length (sheets st') = length (sheets st) \<and>
     (\<forall>i. i \<noteq> activeSheetIndex st \<longrightarrow> sheets st' ! i = sheets st ! i) \<and>
     activeSheetIndex st' = activeSheetIndex st \<and> isLoading st' = isLoading st \<and>
     error st' = error st \<and> showFormulas st' = showFormulas st"
proof -
  let ?a = "activeSheetIndex st"
  from handleCellChange_Inr[OF assms(1), of rowIndex colIndex v]
  obtain st' where h: "handleCellChange rowIndex colIndex v st = Inr st'" by blast
  let ?cell' = "cell\<lparr>value := JStr v\<rparr>"
  from grid_cell_in_bounds[OF assms(2)] obtain row where
    row: "js_get (data (sheets st ! ?a)) rowIndex = Some row" "rowIndex < length (data (sheets st ! ?a))"
      "data (sheets st ! ?a) ! rowIndex = Some row" "colIndex < length row"
    by blast
  have g: "grid_cell (sheets st' ! ?a) rowIndex colIndex = Some ?cell'"
    by (simp add: handleCellChange_grid_cell[OF h] assms(2))
  have others: "\<forall>r c. r \<noteq> rowIndex \<or> c \<noteq> colIndex \<longrightarrow>
        grid_cell (sheets st' ! ?a) r c = grid_cell (sheets st ! ?a) r c"
    by (auto simp: handleCellChange_grid_cell[OF h])
  have d: "data (sheets st' ! ?a) =
       (data (sheets st ! ?a))[rowIndex := Some (row[colIndex := Some ?cell'])]"
    unfolding handleCellChange_data[OF h] assms(2) row(1)
    using row(2,4) by (simp add: js_set_def)
  have fields: "value ?cell' = JStr v \<and> formula ?cell' = formula cell \<and> type ?cell' = type cell \<and>
     style ?cell' = style cell \<and> backgroundColor ?cell' = backgroundColor cell \<and>
     textColor ?cell' = textColor cell \<and> isBold ?cell' = isBold cell \<and>
     isItalic ?cell' = isItalic cell \<and> fontSize ?cell' = fontSize cell \<and>
     fontFamily ?cell' = fontFamily cell \<and> alignment ?cell' = alignment cell \<and>
     border ?cell' = border cell \<and> originalCell ?cell' = originalCell cell \<and>
     debugInfo ?cell' = debugInfo cell"
    by simp
  have frame: "name (sheets st' ! ?a) = name (sheets st ! ?a) \<and>
     rawData (sheets st' ! ?a) = rawData (sheets st ! ?a) \<and>
     length (sheets st') = length (sheets st) \<and>
     (\<forall>i. i \<noteq> ?a \<longrightarrow> sheets st' ! i = sheets st ! i) \<and>
     activeSheetIndex st' = ?a \<and> isLoading st' = isLoading st \<and>
     error st' = error st \<and> showFormulas st' = showFormulas st"
    using handleCellChange_frame[OF h] by simp
  show ?thesis
    apply (rule exI[of _ st'], rule exI[of _ ?cell'], rule exI[of _ row])
    using h g others row(3) d fields frame by blast
qed

text \<open>
  The edit is total over the rendered grid. Whenever the grid is rendered it has at least
  20 rows and no fewer than the matrix has, and for a matrix without missing rows (as a
  load leaves it) at least 10 columns and no fewer than any row has. For every row and
  column index and every text, inside the matrix or not, \<open>handleCellChange\<close> returns a
  state; in it the position holds a record with the text as its value: the record that was
  there with only its value replaced, or, where there was none, the default record (null
  formula, type \<open>n\<close>, no styling) with that value; and a row that was missing is an array
  that holds just this record at the column index.
\<close>

lemma handleCellChange_total:
  assumes "render env st = Inr (GridView g)"
  shows "20 \<le> length (inputs g) \<and>
     length (data (sheets st ! activeSheetIndex st)) \<le> length (inputs g) \<and>
     (None \<notin> set (data (sheets st ! activeSheetIndex st)) \<longrightarrow>
        10 \<le> length (headers g) \<and>
        (\<forall>row. Some row \<in> set (data (sheets st ! activeSheetIndex st)) \<longrightarrow>
           length row \<le> length (headers g))) \<and>
     (\<forall>rowIndex colIndex v. \<exists>st' cell'.
        handleCellChange rowIndex colIndex v st = Inr st' \<and>
        grid_cell (sheets st' ! activeSheetIndex st) rowIndex colIndex = Some cell' \<and>
        value cell' = JStr v \<and>
        (\<forall>cell. grid_cell (sheets st ! activeSheetIndex st) rowIndex colIndex = Some cell \<longrightarrow>
           cell' = cell\<lparr>value := JStr v\<rparr>) \<and>
        (grid_cell (sheets st ! activeSheetIndex st) rowIndex colIndex = None \<longrightarrow>
           cell' = defaultCell (JStr v) \<and> formula cell' = None \<and> type cell' = ''n'' \<and>
           style cell' = None \<and> backgroundColor cell' = None \<and> textColor cell' = None \<and>
           isBold cell' = JBool False \<and> isItalic cell' = JBool False \<and> fontSize cell' = None \<and>
           fontFamily cell' = None \<and> alignment cell' = None \<and> border cell' = None) \<and>
        (js_get (data (sheets st ! activeSheetIndex st)) rowIndex = None \<longrightarrow>
           js_get (data (sheets st' ! activeSheetIndex st)) rowIndex
             = Some (js_set [] colIndex (defaultCell (JStr v)))))"
proof -
  let ?a = "activeSheetIndex st"
  let ?sh = "sheets st ! ?a"
  note r = render_GridView[OF assms]
  have rows: "20 \<le> length (inputs g)" "length (data ?sh) \<le> length (inputs g)"
    by (simp_all add: r(4) maxRows_def)
  have cols: "10 \<le> length (headers g) \<and>
        (\<forall>row. Some row \<in> set (data ?sh) \<longrightarrow> length row \<le> length (headers g))"
    if "None \<notin> set (data ?sh)"
  proof -
    from r(5) obtain n where n: "maxCols env ?sh = Inr n"
      "length (headers g) = length (array_from_length n)" by blast
    from maxCols_bounds[OF n(1) that] obtain k where
      "n = Some k" "10 \<le> k" "\<forall>row. Some row \<in> set (data ?sh) \<longrightarrow> length row \<le> k"
      by blast
    then show ?thesis by (simp add: n(2) array_from_length_def)
  qed
  have edit: "\<exists>st' cell'.
        handleCellChange rowIndex colIndex v st = Inr st' \<and>
        grid_cell (sheets st' ! ?a) rowIndex colIndex = Some cell' \<and>
        value cell' = JStr v \<and>
        (\<forall>cell. grid_cell ?sh rowIndex colIndex = Some cell \<longrightarrow> cell' = cell\<lparr>value := JStr v\<rparr>) \<and>
        (grid_cell ?sh rowIndex colIndex = None \<longrightarrow>
           cell' = defaultCell (JStr v) \<and> formula cell' = None \<and> type cell' = ''n'' \<and>
           style cell' = None \<and> backgroundColor cell' = None \<and> textColor cell' = None \<and>
           isBold cell' = JBool False \<and> isItalic cell' = JBool False \<and> fontSize cell' = None \<and>
           fontFamily cell' = None \<and> alignment cell' = None \<and> border cell' = None) \<and>
        (js_get (data ?sh) rowIndex = None \<longrightarrow>
           js_get (data (sheets st' ! ?a)) rowIndex
             = Some (js_set [] colIndex (defaultCell (JStr v))))" for rowIndex colIndex v
  proof -
    from handleCellChange_Inr[OF r(1), of rowIndex colIndex v]
    obtain st' where h: "handleCellChange rowIndex colIndex v st = Inr st'" by blast
    let ?cell' = "case grid_cell ?sh rowIndex colIndex of
                    Some existingCell \<Rightarrow> existingCell\<lparr>value := JStr v\<rparr>
                  | None \<Rightarrow> defaultCell (JStr v)"
    have g: "grid_cell (sheets st' ! ?a) rowIndex colIndex = Some ?cell'"
      by (simp add: handleCellChange_grid_cell[OF h])
    have v: "value ?cell' = JStr v"
      by (simp add: defaultCell_fields split: option.splits)
    have ex: "\<forall>cell. grid_cell ?sh rowIndex colIndex = Some cell \<longrightarrow> ?cell' = cell\<lparr>value := JStr v\<rparr>"
      by simp
    have new: "grid_cell ?sh rowIndex colIndex = None \<longrightarrow>
           ?cell' = defaultCell (JStr v) \<and> formula ?cell' = None \<and> type ?cell' = ''n'' \<and>
           style ?cell' = None \<and> backgroundColor ?cell' = None \<and> textColor ?cell' = None \<and>
           isBold ?cell' = JBool False \<and> isItalic ?cell' = JBool False \<and> fontSize ?cell' = None \<and>
           fontFamily ?cell' = None \<and> alignment ?cell' = None \<and> border ?cell' = None"
      by (simp add: defaultCell_fields)
    have row: "js_get (data ?sh) rowIndex = None \<longrightarrow>
           js_get (data (sheets st' ! ?a)) rowIndex
             = Some (js_set [] colIndex (defaultCell (JStr v)))"
      unfolding handleCellChange_data[OF h]
      by (simp add: js_get_js_set grid_cell_def)
    show ?thesis
      apply (rule exI[of _ st'], rule exI[of _ ?cell'])
      using h g v ex new row by blast
  qed
  show ?thesis using rows cols edit by blast
qed

text \<open>Typing 5 into B1 of the loaded example: the formula stays, A1 and the second sheet too.\<close>

theorem C2_handleCellChange_frame_witness:
  "activeSheetIndex demo_loaded < length (sheets demo_loaded) \<and>
   grid_cell (sheets demo_loaded ! activeSheetIndex demo_loaded) 0 1
     = Some (extractCell demo_env (CellRef ''Sheet1'' ''B1'') demo_B1) \<and>
   (\<exists>st' cell'. handleCellChange 0 1 ''5'' demo_loaded = Inr st' \<and>
      grid_cell (sheets st' ! 0) 0 1 = Some cell' \<and>
      value cell' = JStr ''5'' \<and> formula cell' = Some ''A2-A2'' \<and>
      grid_cell (sheets st' ! 0) 0 0 = Some (extractCell demo_env (CellRef ''Sheet1'' ''A1'') demo_A1) \<and>
      sheets st' ! 1 = sheets demo_loaded ! 1)"
proof -
  have a: "activeSheetIndex demo_loaded < length (sheets demo_loaded)"
    by (simp add: demo_loaded_fields)
  have b: "grid_cell (sheets demo_loaded ! activeSheetIndex demo_loaded) 0 1
     = Some (extractCell demo_env (CellRef ''Sheet1'' ''B1'') demo_B1)"
    unfolding demo_loaded_fields(1) by (rule demo_grid_cells(2))
  from C2_handleCellChange_frame[OF a b, of "''5''"]
  obtain st' cell' where
    h: "handleCellChange 0 1 ''5'' demo_loaded = Inr st'"
    and g: "grid_cell (sheets st' ! activeSheetIndex demo_loaded) 0 1 = Some cell'"
    and f: "value cell' = JStr ''5''" "formula cell' = formula (extractCell demo_env (CellRef ''Sheet1'' ''B1'') demo_B1)"
    and o: "\<forall>r c. r \<noteq> 0 \<or> c \<noteq> 1 \<longrightarrow>
        grid_cell (sheets st' ! activeSheetIndex demo_loaded) r c
          = grid_cell (sheets demo_loaded ! activeSheetIndex demo_loaded) r c"
    and s: "\<forall>i. i \<noteq> activeSheetIndex demo_loaded \<longrightarrow> sheets st' ! i = sheets demo_loaded ! i"
    by (elim exE conjE) blast
  have g0: "grid_cell (sheets st' ! 0) 0 1 = Some cell'" using g by (simp add: demo_loaded_fields(1))
  have "grid_cell (sheets st' ! activeSheetIndex demo_loaded) 0 0
          = grid_cell (sheets demo_loaded ! activeSheetIndex demo_loaded) 0 0"
    using o by simp
  then have o0: "grid_cell (sheets st' ! 0) 0 0 = Some (extractCell demo_env (CellRef ''Sheet1'' ''A1'') demo_A1)"
    unfolding demo_loaded_fields(1) demo_grid_cells(1) .
  have s1: "sheets st' ! 1 = sheets demo_loaded ! 1"
    using s by (simp add: demo_loaded_fields(1))
  have f2: "formula cell' = Some ''A2-A2''" using f(2) by (simp add: demo_B1_fields)
  show ?thesis using a b h g0 f(1) f2 o0 s1 by blast
qed

lemma demo_render: "\<exists>g. render demo_env demo_loaded = Inr (GridView g)"
proof -
  have l: "length (data (sheets demo_loaded ! activeSheetIndex demo_loaded)) = 2"
    unfolding demo_loaded_fields(1) by (rule demo_loaded_shape)
  have m: "length (data (sheets demo_loaded ! activeSheetIndex demo_loaded))
             < max_arguments demo_env"
    unfolding l demo_max_arguments by simp
  have a: "activeSheetIndex demo_loaded < length (sheets demo_loaded)"
    by (simp add: demo_loaded_fields(1,2))
  show ?thesis
    by (rule render_shows_grid[OF demo_loaded_fields(3,4) a m])
qed

lemma demo_edit:
  "handleCellChange 5 3 ''x'' demo_loaded = Inr demo_edited"
proof -
  have a: "activeSheetIndex demo_loaded < length (sheets demo_loaded)"
    by (simp add: demo_loaded_fields)
  from handleCellChange_Inr[OF a, of 5 3 "''x''"]
  obtain st' where h: "handleCellChange 5 3 ''x'' demo_loaded = Inr st'" by blast
  then show ?thesis by (simp add: demo_edited_def)
qed

lemma demo_edited_reachable: "reachable demo_env demo_edited"
proof -
  from demo_render obtain g where g: "render demo_env demo_loaded = Inr (GridView g)" by blast
  have r: "length (inputs g) = 20" using demo_loaded_render(1) by (simp add: g)
  have c: "length (headers g) = 10" using demo_loaded_render(2) by (simp add: g)
  have "step demo_env demo_loaded demo_edited"
    by (rule step.cell_input[OF g _ _ demo_edit]) (simp_all add: r c)
  with demo_reachable show ?thesis by (rule reachable_step)
qed

lemma edit_below_matrix_hides_columns:
  assumes "handleCellChange rowIndex colIndex v st = Inr st'"
    and "length (data (sheets st ! activeSheetIndex st)) < rowIndex"
    and "Suc rowIndex < max_arguments env"
    and "\<not> isLoading st" and "error st = None"
  shows "shown_rows (render env st') = max (Suc rowIndex) 20"
    and "shown_cols (render env st') = 0"
proof -
  let ?a = "activeSheetIndex st"
  note f = handleCellChange_frame[OF assms(1)]
  have d: "data (sheets st' ! ?a) =
      data (sheets st ! ?a) @ replicate (rowIndex - length (data (sheets st ! ?a))) None
        @ [Some (js_set [] colIndex (defaultCell (JStr v)))]"
    unfolding handleCellChange_data[OF assms(1)] using assms(2)
    by (simp add: js_set_def js_get_def grid_cell_def)
  have len: "length (data (sheets st' ! ?a)) = Suc rowIndex" using assms(2) by (simp add: d)
  have hole: "None \<in> set (data (sheets st' ! ?a))" using assms(2) by (simp add: d)
  have m: "maxCols env (sheets st' ! activeSheetIndex st') = Inr None"
    using hole len assms(3) by (simp add: maxCols_def Math_max_hole f(3))
  have c: "\<not> isLoading st'" "error st' = None" "activeSheetIndex st' < length (sheets st')"
    using f assms(4,5) by simp_all
  note r = render_grid[OF c m]
  show "shown_rows (render env st') = max (Suc rowIndex) 20"
    using r(1) len by (simp add: maxRows_def f(3))
  show "shown_cols (render env st') = 0"
    using r(2) by (simp add: array_from_length_def)
qed

text \<open>
  Claim C9 says that the rendered grid pads to at least 20 rows and 10 columns and that
  every position of it can be edited. The code does not keep the padding: on the example,
  the 2x2 sheet is rendered with 20 rows and 10 columns; typing \<open>x\<close> into row 6, column D
  succeeds and stores the default record with that text, leaving the rows 3 to 5 missing;
  and the grid rendered next has 20 rows and no column, because \<open>Math.max\<close> over the row
  lengths meets the missing rows and gives \<open>NaN\<close> in spite of its argument 10.
\<close>

theorem C9_edit_loses_columns:
  "reachable demo_env demo_loaded \<and>
   length (data (sheets demo_loaded ! activeSheetIndex demo_loaded)) = 2 \<and>
   shown_rows (render demo_env demo_loaded) = 20 \<and>
   shown_cols (render demo_env demo_loaded) = 10 \<and>
   handleCellChange 5 3 ''x'' demo_loaded = Inr demo_edited \<and>
   grid_cell (sheets demo_edited ! activeSheetIndex demo_edited) 5 3
     = Some (defaultCell (JStr ''x'')) \<and>
   reachable demo_env demo_edited \<and>
   shown_rows (render demo_env demo_edited) = 20 \<and>
   shown_cols (render demo_env demo_edited) = 0"
proof -
  have l: "length (data (sheets demo_loaded ! activeSheetIndex demo_loaded)) = 2"
    unfolding demo_loaded_fields(1) by (rule demo_loaded_shape)
  have out: "grid_cell (sheets demo_loaded ! activeSheetIndex demo_loaded) 5 3 = None"
    using l by (simp add: grid_cell_def js_get_def)
  have a: "activeSheetIndex demo_edited = activeSheetIndex demo_loaded"
    by (rule handleCellChange_frame(3)[OF demo_edit])
  have g: "grid_cell (sheets demo_edited ! activeSheetIndex demo_edited) 5 3
     = Some (defaultCell (JStr ''x''))"
    unfolding a handleCellChange_grid_cell[OF demo_edit] out by simp
  have below: "length (data (sheets demo_loaded ! activeSheetIndex demo_loaded)) < 5"
    using l by simp
  have lim: "Suc 5 < max_arguments demo_env" by (simp add: demo_max_arguments)
  note h = edit_below_matrix_hides_columns[OF demo_edit below lim demo_loaded_fields(3,4)]
  show ?thesis
    using demo_reachable l demo_loaded_render demo_edit g demo_edited_reachable h by simp
qed

lemma active_index_step:
  assumes "step env st st'"
    and "sheets st \<noteq> [] \<longrightarrow> activeSheetIndex st < length (sheets st)"
  shows "sheets st' \<noteq> [] \<longrightarrow> activeSheetIndex st' < length (sheets st')"
  using assms
proof (cases rule: step.cases)
  case load_begin
  then show ?thesis using assms(2) by (simp add: loadExcelFile_begin_def)
next
  case (load_end f)
  then show ?thesis using assms(2)
    by (cases "try_block env f") (simp_all add: loadExcelFile_end_def)
next
  case (tab_click g index)
  then show ?thesis using render_GridView(3)[OF tab_click(2)]
    by (auto split: if_splits)
next
  case (toggle g)
  then show ?thesis using assms(2) by simp
next
  case (cell_input g rowIndex colIndex v)
  then show ?thesis using handleCellChange_frame(1,2,3)[OF cell_input(4)] by simp
qed

lemma reachable_active_index:
  "reachable env st \<Longrightarrow> sheets st \<noteq> [] \<longrightarrow> activeSheetIndex st < length (sheets st)"
proof (induction rule: reachable.induct)
  case reachable_initial
  then show ?case by (simp add: initial_state_def)
next
  case (reachable_step st st')
  then show ?case using active_index_step by blast
qed

lemma render_no_TypeError:
  "sheets st \<noteq> [] \<longrightarrow> activeSheetIndex st < length (sheets st)
   \<Longrightarrow> render env st \<noteq> Inl (TypeError property)"
  by (auto simp: render_def Let_def maxCols_def split: sum.splits)

lemma render_total:
  assumes "sheets st \<noteq> [] \<longrightarrow> activeSheetIndex st < length (sheets st)"
    and "\<forall>sh\<in>set (sheets st). length (data sh) < max_arguments env"
  shows "\<exists>w. render env st = Inr w"
proof (cases "sheets st = []")
  case True
  then show ?thesis by (simp add: render_def)
next
  case False
  then have a: "activeSheetIndex st < length (sheets st)" using assms(1) by simp
  then have "length (data (sheets st ! activeSheetIndex st)) < max_arguments env"
    using assms(2) by simp
  then show ?thesis using a by (simp add: render_def Let_def maxCols_def)
qed

text \<open>
  Claim C10. In every state the component can reach, the active index is a valid index
  into the sheets whenever there are any, so rendering never reads a sheet that does not
  exist (and returns a view whenever no sheet has more rows than the engine can spread).
  The two updates of the index keep it so: a load that succeeds stores its sheets
  together with the index 0, and a tab that is rendered has an index below the number of
  sheets.
\<close>

theorem C10_active_index_valid:
  assumes "reachable env st"
  shows "(sheets st \<noteq> [] \<longrightarrow> activeSheetIndex st < length (sheets st)) \<and>
         (\<forall>property. render env st \<noteq> Inl (TypeError property)) \<and>
         ((\<forall>sh\<in>set (sheets st). length (data sh) < max_arguments env) \<longrightarrow>
            (\<exists>w. render env st = Inr w)) \<and>
         (\<forall>f sd. try_block env f = Inr sd \<longrightarrow>
            sheets (loadExcelFile_end env f st) = sd \<and>
            activeSheetIndex (loadExcelFile_end env f st) = 0) \<and>
         (\<forall>g. render env st = Inr (GridView g) \<longrightarrow> (\<forall>index\<in>set (tabs g). index < length (sheets st)))"
proof -
  have a: "sheets st \<noteq> [] \<longrightarrow> activeSheetIndex st < length (sheets st)"
    using reachable_active_index[OF assms] .
  have b: "\<forall>property. render env st \<noteq> Inl (TypeError property)"
    using render_no_TypeError[OF a] by blast
  have b': "(\<forall>sh\<in>set (sheets st). length (data sh) < max_arguments env) \<longrightarrow>
            (\<exists>w. render env st = Inr w)"
    using render_total[OF a] by blast
  have c: "\<forall>f sd. try_block env f = Inr sd \<longrightarrow>
            sheets (loadExcelFile_end env f st) = sd \<and>
            activeSheetIndex (loadExcelFile_end env f st) = 0"
    by (simp add: loadExcelFile_end_def)
  have d: "\<forall>g. render env st = Inr (GridView g) \<longrightarrow> (\<forall>index\<in>set (tabs g). index < length (sheets st))"
  proof (intro allI impI ballI)
    fix g index
    assume g: "render env st = Inr (GridView g)" and i: "index \<in> set (tabs g)"
    show "index < length (sheets st)"
      using i unfolding render_GridView(3)[OF g] by (simp split: if_splits)
  qed
  show ?thesis using a b b' c d by blast
qed

text \<open>
  The example after loading the two-sheet workbook, clicking the second tab, and loading a
  file that fails to parse.
\<close>

lemma demo_tab_reachable:
  "reachable demo_env (loadExcelFile_end demo_env ''corrupt.xlsx'' (demo_loaded\<lparr>activeSheetIndex := 1\<rparr>))"
proof -
  from demo_render obtain g where g: "render demo_env demo_loaded = Inr (GridView g)" by blast
  have t: "tabs g = [0..<2]" using render_GridView(3)[OF g] by (simp add: demo_loaded_fields)
  have "(1::nat) \<in> set [0..<2]" by simp
  then have m: "1 \<in> set (tabs g)" unfolding t .
  have s1: "step demo_env demo_loaded (demo_loaded\<lparr>activeSheetIndex := 1\<rparr>)"
    by (rule step.tab_click[OF g m])
  have r1: "reachable demo_env (demo_loaded\<lparr>activeSheetIndex := 1\<rparr>)"
    by (rule reachable_step[OF demo_reachable s1])
  show ?thesis by (rule reachable_step[OF r1 step.load_end])
qed

theorem C10_active_index_valid_witness:
  "reachable demo_env (loadExcelFile_end demo_env ''corrupt.xlsx'' (demo_loaded\<lparr>activeSheetIndex := 1\<rparr>)) \<and>
   length (sheets (loadExcelFile_end demo_env ''corrupt.xlsx'' (demo_loaded\<lparr>activeSheetIndex := 1\<rparr>))) = 2 \<and>
   activeSheetIndex (loadExcelFile_end demo_env ''corrupt.xlsx'' (demo_loaded\<lparr>activeSheetIndex := 1\<rparr>))
     < length (sheets (loadExcelFile_end demo_env ''corrupt.xlsx'' (demo_loaded\<lparr>activeSheetIndex := 1\<rparr>)))"
proof -
  let ?st = "loadExcelFile_end demo_env ''corrupt.xlsx'' (demo_loaded\<lparr>activeSheetIndex := 1\<rparr>)"
  have "try_block demo_env ''corrupt.xlsx'' = Inl (Exn ''Unsupported file'')"
    by (simp add: try_block_def demo_env_def)
  then have l: "length (sheets ?st) = 2"
    by (simp add: loadExcelFile_end_def demo_loaded_fields)
  then have "sheets ?st \<noteq> []" by auto
  with C10_active_index_valid[OF demo_tab_reachable]
  have "activeSheetIndex ?st < length (sheets ?st)" by blast
  then show ?thesis using demo_tab_reachable l by blast
qed

end
